theory Spec2Isabelle
  imports Main "HOL-Library.Word" "HOL-Library.Signed_Division"
begin

unbundle bit_operations_syntax

section \<open>Machine integers, constants and macros\<close>

text \<open>
  xv6 runs on 32-bit x86: \<open>int\<close>, \<open>uint\<close> and pointers are 32 bits wide.  All of them are
  modelled as \<open>32 word\<close>; \<open>+\<close> and \<open>-\<close> wrap around as C's unsigned arithmetic does,
  unsigned comparisons are \<open><\<close> and \<open>\<le>\<close>, signed ones are \<open><s\<close> and \<open>\<le>s\<close>.
\<close>

type_synonym uint = "32 word"
type_synonym byte = "8 word"

text \<open>The two defines at the top of sysproc.c.\<close>

definition MMAP_AREA_START :: uint where
  "MMAP_AREA_START = 0x60000000"

definition MMAP_AREA_END :: uint where
  "MMAP_AREA_END = 0x80000000"

text \<open>
  Modelled from the spec: mmu.h is not among the sources.  The spec fixes the page size
  (``page size = 4096'') and names the two rounding macros \<open>round_up_page\<close> and
  \<open>round_down_page\<close>; xv6 writes them \<open>((sz)+PGSIZE-1) & ~(PGSIZE-1)\<close> and
  \<open>(a) & ~(PGSIZE-1)\<close>.
\<close>

definition PGSIZE :: uint where
  "PGSIZE = 4096"

definition PGROUNDUP :: "uint \<Rightarrow> uint" where
  "PGROUNDUP sz = (sz + PGSIZE - 1) AND NOT (PGSIZE - 1)"

definition PGROUNDDOWN :: "uint \<Rightarrow> uint" where
  "PGROUNDDOWN a = a AND NOT (PGSIZE - 1)"

text \<open>
  Modelled from the spec: the capacity of the per-process mapping array
  (``up to \<open>MAX_MAPPINGS\<close> = 32''); proc.h is not among the sources, and \<open>exit\<close> clears
  \<open>sizeof(struct mem_mapping) * 32\<close> bytes of it.
\<close>

definition MAX_MAPPINGS :: nat where
  "MAX_MAPPINGS = 32"

text \<open>
  The constants of mmap.h, mmu.h, param.h and memlayout.h that the code uses and whose
  values the sources do not give are parameters of the model: the flag bits of
  \<open>mmap\<close>, the page-table-entry bits, the size of the open-file table and the base of
  the kernel's direct map.
\<close>

record hdr =
  MAP_SHARED :: uint
  MAP_PRIVATE :: uint
  MAP_ANONYMOUS :: uint
  MAP_FIXED :: uint
  MAP_GROWSUP :: uint
  PTE_P :: uint
  PTE_W :: uint
  PTE_U :: uint
  PTE_COW :: uint
  NOFILE :: uint
  KERNBASE :: uint

section \<open>Data model\<close>

text \<open>
  \<open>struct mem_mapping\<close> (mmap.h, not among the sources): the fields the code reads and
  writes, with the two the spec lists besides (\<open>prot\<close>, \<open>offset\<close>).
\<close>

record mem_mapping =
  addr :: uint
  length_m :: uint
  originalLength :: uint
  flags :: uint
  prot :: uint
  fd :: uint
  offset :: uint
  allocated :: uint

text \<open>\<open>struct file\<close>: only the inode pointer is used; \<open>None\<close> is the null pointer.\<close>

record file_t =
  ip :: "nat option"

text \<open>
  \<open>struct proc\<close>, reduced to the fields the mapping code touches.  \<open>memoryMappings\<close> is
  the fixed array (a list of \<open>MAX_MAPPINGS\<close> slots), \<open>num_mappings\<close> the count of live
  entries, \<open>pgdir\<close> the address of the page directory, \<open>ofile\<close> the open-file table
  (\<open>None\<close> is a null entry).
\<close>

record proc =
  pid :: int
  sz :: uint
  pgdir :: uint
  ofile :: "file_t option list"
  memoryMappings :: "mem_mapping list"
  num_mappings :: int

text \<open>
  What a kernel path can end in besides a return: a \<open>panic\<close>, or an access past the end
  of a fixed array (undefined behaviour in C).
\<close>

datatype error = Panic string | OutOfBounds

section \<open>The address allocator\<close>

text \<open>
  The inner \<open>for\<close> loop of \<open>find_available_address\<close> over the indices
  \<open>0 .. num_mappings - 1\<close>: \<open>Inr True\<close> when it leaves through \<open>break\<close> with
  \<open>overlap = 1\<close>.
\<close>

fun overlap_scan :: "mem_mapping list \<Rightarrow> nat list \<Rightarrow> uint \<Rightarrow> uint \<Rightarrow> error + bool" where
  "overlap_scan mm [] a len = Inr False"
| "overlap_scan mm (i # is) a len =
     (if length mm \<le> i then Inl OutOfBounds
      else
        let existing_start = addr (mm ! i);
            existing_end = existing_start + PGROUNDUP (length_m (mm ! i));
            new_end = a + len
        in if existing_start < new_end \<and> existing_end > a then Inr True
           else overlap_scan mm is a len)"

text \<open>The \<open>while\<close> loop; \<open>a\<close> is the local \<open>addr\<close>.\<close>

function find_loop :: "proc \<Rightarrow> uint \<Rightarrow> uint \<Rightarrow> error + uint" where
  "find_loop p len a =
     (if a + len \<le> MMAP_AREA_END then
        (case overlap_scan (memoryMappings p) [0..<nat (num_mappings p)] a len of
           Inl e \<Rightarrow> Inl e
         | Inr ov \<Rightarrow> if ov then find_loop p len (a + PGSIZE) else Inr a)
      else Inr 0)"
  by pat_completeness auto
termination
proof (relation "measure (\<lambda>(p, len, a). 0x80001000 - unat (a + len))")
  show "wf (measure (\<lambda>(p, len, a). 0x80001000 - unat (a + len)))"
    by simp
next
  fix p :: proc and len a :: uint and x2 :: bool
  assume le: "a + len \<le> MMAP_AREA_END"
  have b: "unat (a + len) \<le> 0x80000000"
    using le by (simp add: MMAP_AREA_END_def word_le_nat_alt)
  have e: "a + PGSIZE + len = (a + len) + 4096"
    by (simp add: PGSIZE_def)
  have f: "unat ((a + len) + 4096) = unat (a + len) + 4096"
    using b by (simp add: unat_word_ariths)
  show "((p, len, a + PGSIZE), (p, len, a))
      \<in> measure (\<lambda>(p, len, a). 0x80001000 - unat (a + len))"
  proof -
    have g: "unat (a + PGSIZE + len) = unat (a + len) + 4096"
      by (simp only: e f)
    show ?thesis using b by (simp add: g)
  qed
qed

declare find_loop.simps [simp del]

definition find_available_address :: "proc \<Rightarrow> uint \<Rightarrow> error + uint" where
  "find_available_address curproc len = find_loop curproc len MMAP_AREA_START"

section \<open>mmap\<close>

text \<open>
  The second half of \<open>sys_mmap\<close>, from the comment ``Address allocation'' on: \<open>a\<close> is
  \<open>addr\<close>, \<open>len\<close> is \<open>length\<close>, \<open>fl\<close> is \<open>flags\<close>, \<open>f\<close> is \<open>fd\<close>.  \<open>stack\<close> is the content
  of the uninitialised local \<open>new_mapping\<close>: the code assigns five of its fields and
  copies the whole struct into the table.  The result is the returned value and the
  process as the call leaves it.  The store into the table is not guarded: at an index
  past the array it is an out-of-bounds access.
\<close>

definition mmap_place ::
  "hdr \<Rightarrow> mem_mapping \<Rightarrow> proc \<Rightarrow> uint \<Rightarrow> uint \<Rightarrow> uint \<Rightarrow> uint \<Rightarrow> error + (uint \<times> proc)" where
  "mmap_place H stack currproc a len fl f =
     (case (if fl AND MAP_FIXED H \<noteq> 0 then Inr a
            else find_available_address currproc len) of
        Inl e \<Rightarrow> Inl e
      | Inr new_address \<Rightarrow>
          if fl AND MAP_FIXED H = 0 \<and> new_address = 0 then Inr (- 1, currproc)
          else
            let new_mapping = stack\<lparr>addr := new_address, length_m := len, flags := fl,
                                    fd := f, originalLength := len\<rparr>
            in if num_mappings currproc < 0
                    \<or> length (memoryMappings currproc) \<le> nat (num_mappings currproc)
               then Inl OutOfBounds
               else Inr (new_address,
                 currproc\<lparr>memoryMappings :=
                     (memoryMappings currproc)[nat (num_mappings currproc) := new_mapping],
                   num_mappings := num_mappings currproc + 1\<rparr>))"

text \<open>
  The first half: the checks on the arguments, in the order of the code.  \<open>off\<close> is
  \<open>offset\<close>, \<open>pr\<close> is \<open>prot\<close>.  \<open>(int)addr % PGSIZE\<close> is C's remainder on signed ints
  (\<open>smod\<close>), \<open>(uint)addr % PGSIZE\<close> the unsigned one.  \<open>ofile[fd]\<close> is read only after
  \<open>fd\<close> has been compared with \<open>0\<close> and \<open>NOFILE\<close>.
\<close>

definition mmap_body ::
  "hdr \<Rightarrow> mem_mapping \<Rightarrow> proc \<Rightarrow> uint \<Rightarrow> uint \<Rightarrow> uint \<Rightarrow> uint \<Rightarrow> uint \<Rightarrow> uint
    \<Rightarrow> error + (uint \<times> proc)" where
  "mmap_body H stack currproc a len pr fl f off =
     (if len \<le>s 0 then Inr (- 1, currproc)
      else if a \<noteq> 0 \<and>
          (a <s MMAP_AREA_START \<or> (MMAP_AREA_END - PGSIZE) <s a \<or> sint a smod 4096 \<noteq> 0)
        then Inr (- 1, currproc)
      else if \<not> (fl AND MAP_SHARED H \<noteq> 0 \<or> fl AND MAP_PRIVATE H \<noteq> 0)
        then Inr (- 1, currproc)
      else if fl AND MAP_ANONYMOUS H \<noteq> 0 \<and> (f \<noteq> - 1 \<or> off \<noteq> 0)
        then Inr (- 1, currproc)
      else if fl AND MAP_FIXED H \<noteq> 0 \<and> (a = 0 \<or> a mod PGSIZE \<noteq> 0)
        then Inr (- 1, currproc)
      else if fl AND MAP_ANONYMOUS H = 0 \<and> (f <s 0 \<or> NOFILE H \<le>s f)
        then Inr (- 1, currproc)
      else if fl AND MAP_ANONYMOUS H = 0 \<and> length (ofile currproc) \<le> unat f
        then Inl OutOfBounds
      else if fl AND MAP_ANONYMOUS H = 0 \<and> ofile currproc ! unat f = None
        then Inr (- 1, currproc)
      else mmap_place H stack currproc a len fl f)"

text \<open>
  \<open>sys_mmap\<close>: \<open>argint n\<close> fetches the \<open>n\<close>-th system-call argument from the user
  stack and fails (\<open>None\<close>) when it does not lie in the process's memory; the \<open>||\<close> chain
  stops at the first failure.
\<close>

definition sys_mmap ::
  "hdr \<Rightarrow> (nat \<Rightarrow> uint option) \<Rightarrow> mem_mapping \<Rightarrow> proc \<Rightarrow> error + (uint \<times> proc)" where
  "sys_mmap H argint stack currproc =
     (case argint 0 of None \<Rightarrow> Inr (- 1, currproc) | Some a \<Rightarrow>
     (case argint 1 of None \<Rightarrow> Inr (- 1, currproc) | Some len \<Rightarrow>
     (case argint 2 of None \<Rightarrow> Inr (- 1, currproc) | Some pr \<Rightarrow>
     (case argint 3 of None \<Rightarrow> Inr (- 1, currproc) | Some fl \<Rightarrow>
     (case argint 4 of None \<Rightarrow> Inr (- 1, currproc) | Some f \<Rightarrow>
     (case argint 5 of None \<Rightarrow> Inr (- 1, currproc) | Some off \<Rightarrow>
        mmap_body H stack currproc a len pr fl f off))))))"

section \<open>Kernel state and the external collaborators\<close>

text \<open>
  What the kernel does besides changing memory is kept as a trace of events: a reload
  of \<open>cr3\<close> (the TLB flush), the file-system transaction and inode lock calls, the reads
  and writes of inodes, and console output.
\<close>

datatype event =
    Lcr3 uint
  | Begin_op
  | End_op
  | Ilock nat
  | Iunlock nat
  | Readi nat uint uint
  | Writei nat uint uint
  | Cprintf string

text \<open>
  The state outside \<open>struct proc\<close>: \<open>kmem\<close> is the kernel's byte-addressed memory (the
  page frames, at their kernel virtual addresses); \<open>freelist\<close> holds the frames the
  allocator can hand out; \<open>ptes pd pg\<close> is the page-table entry of the page at \<open>pg\<close> in
  the address space whose page directory is at \<open>pd\<close>, \<open>None\<close> where there is no
  page-table page; \<open>disk i\<close> is the content of inode \<open>i\<close>.
\<close>

record kstate =
  kmem :: "uint \<Rightarrow> byte"
  freelist :: "uint list"
  ptes :: "uint \<Rightarrow> uint \<Rightarrow> uint option"
  disk :: "nat \<Rightarrow> byte list"
  trace :: "event list"

definition emit :: "event \<Rightarrow> kstate \<Rightarrow> kstate" where
  "emit ev s = s\<lparr>trace := trace s @ [ev]\<rparr>"

text \<open>The macros of mmu.h and memlayout.h on addresses and page-table entries.\<close>

definition PTE_ADDR :: "uint \<Rightarrow> uint" where
  "PTE_ADDR pte = pte AND NOT 0xFFF"

definition PTE_FLAGS :: "uint \<Rightarrow> uint" where
  "PTE_FLAGS pte = pte AND 0xFFF"

definition V2P :: "hdr \<Rightarrow> uint \<Rightarrow> uint" where
  "V2P H a = a - KERNBASE H"

definition P2V :: "hdr \<Rightarrow> uint \<Rightarrow> uint" where
  "P2V H a = a + KERNBASE H"

text \<open>
  Modelled from the spec: the frame allocator (kalloc.c is not among the sources)
  ``yields and reclaims physical page frames''.  \<open>kalloc\<close> returns \<open>0\<close> when it has no
  frame, which is the case the callers test for.
\<close>

definition kalloc :: "kstate \<Rightarrow> uint \<times> kstate" where
  "kalloc s = (case freelist s of [] \<Rightarrow> (0, s) | m # ms \<Rightarrow> (m, s\<lparr>freelist := ms\<rparr>))"

definition kfree :: "kstate \<Rightarrow> uint \<Rightarrow> kstate" where
  "kfree s v = s\<lparr>freelist := v # freelist s\<rparr>"

text \<open>
  Modelled from the spec: the page-table walker (vm.c is not among the sources), ``a
  utility that returns the PTE slot for a virtual address, optionally creating
  intermediate tables''.  \<open>pte_at s pd va\<close> is \<open>walkpgdir(pd, va, 0)\<close> followed by the
  read \<open>*pte\<close>: \<open>None\<close> when the walker returns the null pointer.  \<open>pte_store\<close> is the
  write \<open>*pte = v\<close>.  \<open>walkpgdir_create\<close> is \<open>walkpgdir(pd, va, 1)\<close>: when the page-table
  page of \<open>va\<close> is missing it takes a frame for it, which gives every page of that
  4-megabyte region an empty entry; it fails, returning the null pointer, when there
  is no frame.
\<close>

definition pte_at :: "kstate \<Rightarrow> uint \<Rightarrow> uint \<Rightarrow> uint option" where
  "pte_at s pd va = ptes s pd (PGROUNDDOWN va)"

definition pte_deref :: "kstate \<Rightarrow> uint \<Rightarrow> uint \<Rightarrow> uint" where
  "pte_deref s pd va = (case pte_at s pd va of None \<Rightarrow> 0 | Some v \<Rightarrow> v)"

definition pte_store :: "kstate \<Rightarrow> uint \<Rightarrow> uint \<Rightarrow> uint \<Rightarrow> kstate" where
  "pte_store s pd va v = s\<lparr>ptes := (ptes s)(pd := (ptes s pd)(PGROUNDDOWN va := Some v))\<rparr>"

definition walkpgdir_create :: "kstate \<Rightarrow> uint \<Rightarrow> uint \<Rightarrow> bool \<times> kstate" where
  "walkpgdir_create s pd va =
     (if pte_at s pd va \<noteq> None then (True, s)
      else
        (case kalloc s of (pgtab, s1) \<Rightarrow>
           if pgtab = 0 then (False, s1)
           else (True, s1\<lparr>ptes := (ptes s1)(pd :=
                   (\<lambda>q. if drop_bit 22 q = drop_bit 22 va \<and> ptes s1 pd q = None then Some 0
                        else ptes s1 pd q))\<rparr>)))"

text \<open>
  Modelled from the spec: \<open>mappages\<close> (vm.c), the spec's \<open>map_range\<close>: ``Map
  \<open>round_down_page(va)\<close> to the frame'' with the given permission and the present bit;
  the insertion fails (\<open>-1\<close>) when the walker cannot create the entry.  The one call
  of the code maps a single page.
\<close>

definition mappages :: "hdr \<Rightarrow> kstate \<Rightarrow> uint \<Rightarrow> uint \<Rightarrow> uint \<Rightarrow> uint \<Rightarrow> uint \<Rightarrow> uint \<times> kstate" where
  "mappages H s pd va sz_arg pa perm =
     (case walkpgdir_create s pd va of
        (False, s1) \<Rightarrow> (- 1, s1)
      | (True, s1) \<Rightarrow> (0, pte_store s1 pd va (pa OR perm OR PTE_P H)))"

text \<open>
  \<open>memmove\<close> and \<open>memset\<close> on kernel memory, and the copies between kernel memory and a
  local \<open>char buffer[PGSIZE]\<close> (a function from the index to the byte).
\<close>

definition memmove :: "kstate \<Rightarrow> uint \<Rightarrow> uint \<Rightarrow> uint \<Rightarrow> kstate" where
  "memmove s dst src n =
     s\<lparr>kmem := (\<lambda>a. if a - dst < n then kmem s (src + (a - dst)) else kmem s a)\<rparr>"

definition memset :: "kstate \<Rightarrow> uint \<Rightarrow> byte \<Rightarrow> uint \<Rightarrow> kstate" where
  "memset s dst c n = s\<lparr>kmem := (\<lambda>a. if a - dst < n then c else kmem s a)\<rparr>"

definition memmove_from_buffer :: "kstate \<Rightarrow> uint \<Rightarrow> (nat \<Rightarrow> byte) \<Rightarrow> uint \<Rightarrow> kstate" where
  "memmove_from_buffer s dst buffer n =
     s\<lparr>kmem := (\<lambda>a. if a - dst < n then buffer (unat (a - dst)) else kmem s a)\<rparr>"

definition memmove_to_buffer :: "kstate \<Rightarrow> uint \<Rightarrow> uint \<Rightarrow> (nat \<Rightarrow> byte) \<Rightarrow> (nat \<Rightarrow> byte)" where
  "memmove_to_buffer s src n buffer =
     (\<lambda>k. if k < unat n then kmem s (src + of_nat k) else buffer k)"

text \<open>
  Modelled from the spec: the file layer (fs.c and log.c are not among the sources).
  \<open>read_inode_at\<close> copies the bytes of the inode from \<open>off\<close> on into the buffer, at most
  \<open>n\<close> and no more than the file holds (``short reads leave the tail indeterminate'':
  the rest of the buffer keeps what it held); \<open>write_inode_at\<close> writes \<open>n\<close> bytes at
  \<open>off\<close>, growing the file, and gives a negative result when \<open>off\<close> lies beyond the end
  of the file.  Locking a null inode pointer is the fatal ``inode lookup failure''.
\<close>

definition readi :: "kstate \<Rightarrow> nat \<Rightarrow> (nat \<Rightarrow> byte) \<Rightarrow> uint \<Rightarrow> uint \<Rightarrow> (nat \<Rightarrow> byte) \<times> kstate" where
  "readi s i buffer off n =
     (let data = disk s i;
          got = (if length data < unat off then 0 else min (unat n) (length data - unat off))
      in (\<lambda>k. if k < got then data ! (unat off + k) else buffer k,
          emit (Readi i off n) s))"

definition writei :: "kstate \<Rightarrow> nat \<Rightarrow> (nat \<Rightarrow> byte) \<Rightarrow> uint \<Rightarrow> uint \<Rightarrow> uint \<times> kstate" where
  "writei s i buffer off n =
     (let data = disk s i in
      if length data < unat off then (- 1, emit (Writei i off n) s)
      else (n, emit (Writei i off n)
              (s\<lparr>disk := (disk s)(i := take (unat off) data @ map buffer [0..<unat n]
                                        @ drop (unat off + unat n) data)\<rparr>)))"

definition ilock :: "kstate \<Rightarrow> nat option \<Rightarrow> error + kstate" where
  "ilock s ip_opt = (case ip_opt of None \<Rightarrow> Inl (Panic ''ilock'') | Some i \<Rightarrow> Inr (emit (Ilock i) s))"

text \<open>
  \<open>ofile[fd]\<close> of the current process: the table has a fixed size, a read past it is
  out of bounds.
\<close>

definition ofile_at :: "proc \<Rightarrow> uint \<Rightarrow> error + file_t option" where
  "ofile_at p f = (if unat f < length (ofile p) then Inr (ofile p ! unat f) else Inl OutOfBounds)"

section \<open>The page-fault handler\<close>

text \<open>
  The copy-on-write branch of \<open>page_fault_handler\<close>; \<open>v\<close> is \<open>*pte\<close> as the branch is
  entered.
\<close>

definition cow_fault :: "hdr \<Rightarrow> kstate \<Rightarrow> proc \<Rightarrow> uint \<Rightarrow> uint \<Rightarrow> error + (uint \<times> kstate \<times> proc)" where
  "cow_fault H s currproc va v =
     (case kalloc s of (mem, s1) \<Rightarrow>
        if mem = 0 then Inl (Panic ''Out of memory - COW page fault handler'')
        else
          let old_page = P2V H (PTE_ADDR v);
              s2 = memmove s1 mem old_page PGSIZE;
              s3 = pte_store s2 (pgdir currproc) va (V2P H mem OR PTE_FLAGS v OR PTE_W H);
              s4 = pte_store s3 (pgdir currproc) va
                     (pte_deref s3 (pgdir currproc) va AND NOT (PTE_COW H));
              s5 = emit (Lcr3 (V2P H (pgdir currproc))) s4
          in Inr (1, s5, currproc))"

text \<open>The way out through \<open>cprintf("Segmentation Fault\n"); return -1\<close>.\<close>

definition segfault :: "kstate \<Rightarrow> proc \<Rightarrow> error + (uint \<times> kstate \<times> proc)" where
  "segfault s currproc = Inr (- 1, emit (Cprintf ''Segmentation Fault'') s, currproc)"

text \<open>
  The inner loop of the \<open>MAP_GROWSUP\<close> block: it stops at the first entry, in index
  order, whose address is at or above \<open>end_of_mapping\<close> (and below the initial
  \<open>0xFFFFFFFF\<close>).
\<close>

fun next_mapping_scan :: "mem_mapping list \<Rightarrow> nat list \<Rightarrow> uint \<Rightarrow> uint \<Rightarrow> error + uint" where
  "next_mapping_scan mm [] end_of_mapping next_mapping_start = Inr next_mapping_start"
| "next_mapping_scan mm (j # js) end_of_mapping next_mapping_start =
     (if length mm \<le> j then Inl OutOfBounds
      else if addr (mm ! j) \<ge> end_of_mapping \<and> addr (mm ! j) < next_mapping_start
        then Inr (addr (mm ! j))
      else next_mapping_scan mm js end_of_mapping next_mapping_start)"

text \<open>
  The \<open>MAP_GROWSUP\<close> block for the entry at index \<open>i\<close>: \<open>Inr None\<close> is the \<open>break\<close> out of
  the outer loop, \<open>Inr (Some p)\<close> the process with the entry's length one page longer.
\<close>

definition growsup :: "proc \<Rightarrow> nat \<Rightarrow> error + proc option" where
  "growsup currproc i =
     (let mapping = memoryMappings currproc ! i;
          end_of_mapping = PGROUNDUP (addr mapping + length_m mapping) + PGSIZE
      in case next_mapping_scan (memoryMappings currproc) [0..<nat (num_mappings currproc)]
                end_of_mapping 0xFFFFFFFF of
           Inl e \<Rightarrow> Inl e
         | Inr next_mapping_start \<Rightarrow>
             if PGSIZE \<ge> next_mapping_start - end_of_mapping then Inr None
             else Inr (Some (currproc\<lparr>memoryMappings :=
                    (memoryMappings currproc)[i := mapping\<lparr>length_m := length_m mapping + PGSIZE\<rparr>]\<rparr>)))"

text \<open>
  The file-backed fill: \<open>ip_ptr\<close> is the local \<open>ip\<close>, \<open>stack\<close> the content of the
  uninitialised local \<open>buffer\<close>, \<open>mem\<close> the new frame.
\<close>

definition file_fill ::
  "(nat \<Rightarrow> byte) \<Rightarrow> kstate \<Rightarrow> mem_mapping \<Rightarrow> nat option \<Rightarrow> uint \<Rightarrow> uint \<Rightarrow> error + kstate" where
  "file_fill stack s mapping ip_ptr va mem =
     (let page_in_file = PGROUNDDOWN va;
          offset_into_file = page_in_file - addr mapping
      in case ilock (emit Begin_op s) ip_ptr of
           Inl e \<Rightarrow> Inl e
         | Inr s1 \<Rightarrow>
             (case ip_ptr of
                None \<Rightarrow> Inl (Panic ''ilock'')
              | Some i \<Rightarrow>
                  (case readi s1 i stack offset_into_file PGSIZE of (buffer, s2) \<Rightarrow>
                     Inr (memmove_from_buffer (emit End_op (emit (Iunlock i) s2))
                            mem buffer PGSIZE))))"

text \<open>
  The body of the outer loop once the entry at index \<open>i\<close> contains \<open>va\<close>, in three
  steps.  \<open>mapping\<close> is the local copy \<open>map\<close> of the entry; \<open>map.allocated = 1\<close> changes
  that copy only.  \<open>pf_inode\<close> is the lookup of the backing inode (\<open>if (map.fd > 0)\<close>),
  \<open>pf_grow\<close> the \<open>MAP_GROWSUP\<close> block, \<open>pf_fill\<close> the whole body: it allocates the frame
  between the two, fills it, calls \<open>mappages\<close> and returns \<open>1\<close> whatever \<open>mappages\<close>
  returned.
\<close>

definition pf_inode :: "proc \<Rightarrow> mem_mapping \<Rightarrow> error + nat option" where
  "pf_inode currproc mapping =
     (if 0 <s fd mapping
      then (case ofile_at currproc (fd mapping) of
              Inl e \<Rightarrow> Inl e
            | Inr None \<Rightarrow> Inl (Panic ''mapping failed 1'')
            | Inr (Some f) \<Rightarrow> Inr (ip f))
      else Inr None)"

definition pf_grow :: "hdr \<Rightarrow> proc \<Rightarrow> mem_mapping \<Rightarrow> nat \<Rightarrow> error + proc option" where
  "pf_grow H currproc mapping i =
     (if flags mapping AND MAP_GROWSUP H \<noteq> 0 then growsup currproc i
      else Inr (Some currproc))"

definition pf_fill ::
  "hdr \<Rightarrow> (nat \<Rightarrow> byte) \<Rightarrow> kstate \<Rightarrow> proc \<Rightarrow> uint \<Rightarrow> nat \<Rightarrow> error + (uint \<times> kstate \<times> proc)" where
  "pf_fill H stack s currproc va i =
     (let mapping = (memoryMappings currproc ! i)\<lparr>allocated := 1\<rparr> in
      case pf_inode currproc mapping of
        Inl e \<Rightarrow> Inl e
      | Inr ip_ptr \<Rightarrow>
          (case kalloc s of (mem, s1) \<Rightarrow>
             if mem = 0 then Inl (Panic ''mapping failed 2'')
             else
               (case pf_grow H currproc mapping i of
                  Inl e \<Rightarrow> Inl e
                | Inr None \<Rightarrow> segfault s1 currproc
                | Inr (Some currproc1) \<Rightarrow>
                    (case (if flags mapping AND MAP_ANONYMOUS H = 0
                           then file_fill stack s1 mapping ip_ptr va mem
                           else Inr (memset s1 mem 0 PGSIZE)) of
                       Inl e \<Rightarrow> Inl e
                     | Inr s2 \<Rightarrow>
                         (case mappages H s2 (pgdir currproc1) va PGSIZE (V2P H mem)
                                 (PTE_W H OR PTE_U H) of (r, s3) \<Rightarrow>
                            if r <s 0 then Inr (1, kfree s3 mem, currproc1)
                            else Inr (1, s3, currproc1))))))"

text \<open>The outer \<open>for\<close> loop over the indices \<open>0 .. num_mappings - 1\<close>.\<close>

fun pf_scan ::
  "hdr \<Rightarrow> (nat \<Rightarrow> byte) \<Rightarrow> kstate \<Rightarrow> proc \<Rightarrow> uint \<Rightarrow> nat list
    \<Rightarrow> error + (uint \<times> kstate \<times> proc)" where
  "pf_scan H stack s currproc va [] = segfault s currproc"
| "pf_scan H stack s currproc va (i # is) =
     (if length (memoryMappings currproc) \<le> i then Inl OutOfBounds
      else if va \<ge> addr (memoryMappings currproc ! i)
            \<and> va < PGROUNDUP (addr (memoryMappings currproc ! i)
                                + length_m (memoryMappings currproc ! i))
        then pf_fill H stack s currproc va i
      else pf_scan H stack s currproc va is)"

text \<open>
  \<open>page_fault_handler\<close>: the returned triple is the result (\<open>1\<close> or \<open>-1\<close>), the kernel
  state and the current process after the fault.
\<close>

definition page_fault_handler ::
  "hdr \<Rightarrow> (nat \<Rightarrow> byte) \<Rightarrow> kstate \<Rightarrow> proc \<Rightarrow> uint \<Rightarrow> error + (uint \<times> kstate \<times> proc)" where
  "page_fault_handler H stack s currproc va =
     (case pte_at s (pgdir currproc) va of
        None \<Rightarrow> pf_scan H stack s currproc va [0..<nat (num_mappings currproc)]
      | Some v \<Rightarrow>
          if v AND PTE_COW H \<noteq> 0 \<and> v AND PTE_W H = 0 then cow_fault H s currproc va v
          else pf_scan H stack s currproc va [0..<nat (num_mappings currproc)])"

section \<open>munmap\<close>

text \<open>
  The lookup of the backing inode in \<open>sys_munmap\<close>, for a shared file mapping whose
  descriptor number is not negative.
\<close>

definition munmap_inode :: "hdr \<Rightarrow> proc \<Rightarrow> mem_mapping \<Rightarrow> error + nat option" where
  "munmap_inode H curproc mapping =
     (if flags mapping AND MAP_SHARED H \<noteq> 0 \<and> flags mapping AND MAP_ANONYMOUS H = 0
         \<and> 0 \<le>s fd mapping
      then (case ofile_at curproc (fd mapping) of
              Inl e \<Rightarrow> Inl e
            | Inr None \<Rightarrow> Inl (Panic ''mapping failed 1'')
            | Inr (Some f) \<Rightarrow> Inr (ip f))
      else Inr None)"

text \<open>
  One round of the \<open>while (va < addr + length)\<close> loop, without the step \<open>va += PGSIZE\<close>:
  the write-back of a present page of a shared file mapping.  The boolean of the result
  is \<open>written_bytes < 0\<close>, on which the system call returns \<open>-1\<close> at once.
\<close>

definition munmap_page ::
  "hdr \<Rightarrow> (nat \<Rightarrow> byte) \<Rightarrow> kstate \<Rightarrow> proc \<Rightarrow> mem_mapping \<Rightarrow> nat option \<Rightarrow> uint
    \<Rightarrow> error + (bool \<times> kstate)" where
  "munmap_page H stack s curproc mapping ip_ptr va =
     (case pte_at s (pgdir curproc) va of
        None \<Rightarrow> Inr (False, s)
      | Some v \<Rightarrow>
          if v AND PTE_P H \<noteq> 0
              \<and> flags mapping AND MAP_SHARED H \<noteq> 0 \<and> flags mapping AND MAP_ANONYMOUS H = 0
          then
            let pa = P2V H (PTE_ADDR v);
                buffer = memmove_to_buffer s pa PGSIZE stack;
                offset_into_file = va - addr mapping
            in case ilock (emit Begin_op s) ip_ptr of
                 Inl e \<Rightarrow> Inl e
               | Inr s1 \<Rightarrow>
                   (case ip_ptr of
                      None \<Rightarrow> Inl (Panic ''ilock'')
                    | Some i \<Rightarrow>
                        (case writei s1 i buffer offset_into_file PGSIZE of
                           (written_bytes, s2) \<Rightarrow>
                             Inr (written_bytes <s 0, emit End_op (emit (Iunlock i) s2))))
          else Inr (False, s))"

text \<open>
  The \<open>while\<close> loop over the pages; \<open>e\<close> is \<open>(uint)addr + length\<close>.  In 32-bit arithmetic
  \<open>va += PGSIZE\<close> can wrap around below \<open>e\<close>, so the loop need not end: not returning is
  the value \<open>None\<close>.
\<close>

partial_function (option) munmap_pages ::
  "hdr \<Rightarrow> (nat \<Rightarrow> byte) \<Rightarrow> proc \<Rightarrow> mem_mapping \<Rightarrow> nat option \<Rightarrow> uint \<Rightarrow> kstate \<Rightarrow> uint
    \<Rightarrow> (error + (bool \<times> kstate)) option" where
  "munmap_pages H stack curproc mapping ip_ptr e s va =
     (if va < e then
        (case munmap_page H stack s curproc mapping ip_ptr va of
           Inl err \<Rightarrow> Some (Inl err)
         | Inr r \<Rightarrow>
             if fst r then Some (Inr (True, snd r))
             else munmap_pages H stack curproc mapping ip_ptr e (snd r) (va + PGSIZE))
      else Some (Inr (False, s)))"

text \<open>
  The removal of the entry at index \<open>i\<close>: the loop
  \<open>for (k = i; k < num_mappings - 1; k++) memoryMappings[k] = memoryMappings[k + 1]\<close>
  and the decrement of \<open>num_mappings\<close>.
\<close>

fun shift_down :: "mem_mapping list \<Rightarrow> nat list \<Rightarrow> error + mem_mapping list" where
  "shift_down mm [] = Inr mm"
| "shift_down mm (k # ks) =
     (if length mm \<le> k + 1 then Inl OutOfBounds
      else shift_down (mm[k := mm ! (k + 1)]) ks)"

definition munmap_remove :: "proc \<Rightarrow> nat \<Rightarrow> error + proc" where
  "munmap_remove curproc i =
     (case shift_down (memoryMappings curproc) [i..<nat (num_mappings curproc - 1)] of
        Inl e \<Rightarrow> Inl e
      | Inr mm \<Rightarrow> Inr (curproc\<lparr>memoryMappings := mm,
                                 num_mappings := num_mappings curproc - 1\<rparr>))"

text \<open>
  \<open>sys_munmap\<close> after the two arguments have been fetched; \<open>a\<close> is \<open>addr\<close>, \<open>len\<close> is
  \<open>length\<close>.  In the code the removal of the entry and the \<open>break\<close> stand after the
  closing brace of \<open>if (addr >= map->addr && ...)\<close>, inside the \<open>for\<close> loop: the body of
  the loop runs for \<open>i = 0\<close> only, and it removes entry \<open>0\<close> whether or not that entry
  contains the range; \<open>found_mapping\<close> decides the result alone.
\<close>

definition munmap_body ::
  "hdr \<Rightarrow> (nat \<Rightarrow> byte) \<Rightarrow> kstate \<Rightarrow> proc \<Rightarrow> uint \<Rightarrow> uint
    \<Rightarrow> (error + (uint \<times> kstate \<times> proc)) option" where
  "munmap_body H stack s curproc a len =
     (if \<not> 0 < num_mappings curproc then Some (Inr (- 1, s, curproc))
      else if length (memoryMappings curproc) = 0 then Some (Inl OutOfBounds)
      else
        let mapping = memoryMappings curproc ! 0 in
        if a \<ge> addr mapping \<and> a + len \<le> addr mapping + length_m mapping
        then
          (case munmap_inode H curproc mapping of
             Inl e \<Rightarrow> Some (Inl e)
           | Inr ip_ptr \<Rightarrow>
               (case munmap_pages H stack curproc mapping ip_ptr (a + len) s a of
                  None \<Rightarrow> None
                | Some (Inl e) \<Rightarrow> Some (Inl e)
                | Some (Inr r) \<Rightarrow>
                    if fst r then Some (Inr (- 1, snd r, curproc))
                    else
                      (case munmap_remove curproc 0 of
                         Inl e \<Rightarrow> Some (Inl e)
                       | Inr curproc1 \<Rightarrow> Some (Inr (0, snd r, curproc1)))))
        else
          (case munmap_remove curproc 0 of
             Inl e \<Rightarrow> Some (Inl e)
           | Inr curproc1 \<Rightarrow> Some (Inr (- 1, s, curproc1))))"

definition sys_munmap ::
  "hdr \<Rightarrow> (nat \<Rightarrow> uint option) \<Rightarrow> (nat \<Rightarrow> byte) \<Rightarrow> kstate \<Rightarrow> proc
    \<Rightarrow> (error + (uint \<times> kstate \<times> proc)) option" where
  "sys_munmap H argint stack s curproc =
     (case argint 0 of None \<Rightarrow> Some (Inr (- 1, s, curproc)) | Some a \<Rightarrow>
     (case argint 1 of None \<Rightarrow> Some (Inr (- 1, s, curproc)) | Some len \<Rightarrow>
        munmap_body H stack s curproc a len))"

section \<open>fork\<close>

text \<open>
  One round of the loop over the pages of a private mapping, without the step
  \<open>address += PGSIZE\<close>; \<open>ppd\<close> is \<open>curproc->pgdir\<close>, \<open>cpd\<close> is \<open>np->pgdir\<close>.
\<close>

definition fork_cow_page :: "hdr \<Rightarrow> kstate \<Rightarrow> uint \<Rightarrow> uint \<Rightarrow> uint \<Rightarrow> error + kstate" where
  "fork_cow_page H s ppd cpd address =
     (case pte_at s ppd address of
        None \<Rightarrow> Inr s
      | Some v \<Rightarrow>
          if v AND PTE_P H \<noteq> 0 then
            let s1 = pte_store s ppd address (v AND NOT (PTE_W H));
                s2 = pte_store s1 ppd address (pte_deref s1 ppd address OR PTE_COW H);
                s3 = emit (Lcr3 (V2P H ppd)) s2
            in case walkpgdir_create s3 cpd address of
                 (True, s4) \<Rightarrow> Inr (pte_store s4 cpd address (pte_deref s4 ppd address))
               | (False, s4) \<Rightarrow> Inl (Panic ''Failed to allocate PTE for child.'')
          else Inr s)"

text \<open>
  The loop \<open>for (address = map->addr; address < map->addr + map->length; address += PGSIZE)\<close>;
  \<open>e\<close> is \<open>map->addr + map->length\<close>.  As in \<open>munmap\<close> the 32-bit counter can wrap around.
\<close>

partial_function (option) fork_cow_pages ::
  "hdr \<Rightarrow> uint \<Rightarrow> uint \<Rightarrow> uint \<Rightarrow> kstate \<Rightarrow> uint \<Rightarrow> (error + kstate) option" where
  "fork_cow_pages H ppd cpd e s address =
     (if address < e then
        (case fork_cow_page H s ppd cpd address of
           Inl err \<Rightarrow> Some (Inl err)
         | Inr s1 \<Rightarrow> fork_cow_pages H ppd cpd e s1 (address + PGSIZE))
      else Some (Inr s))"

text \<open>
  The loop over the parent's mappings: the pages of a \<open>MAP_PRIVATE\<close> mapping are marked
  and shared, then the descriptor is copied into the child at the same index.
\<close>

fun fork_mappings ::
  "hdr \<Rightarrow> proc \<Rightarrow> kstate \<Rightarrow> proc \<Rightarrow> nat list \<Rightarrow> (error + (kstate \<times> proc)) option" where
  "fork_mappings H curproc s np [] = Some (Inr (s, np))"
| "fork_mappings H curproc s np (i # is) =
     (if length (memoryMappings curproc) \<le> i then Some (Inl OutOfBounds)
      else
        (case (if flags (memoryMappings curproc ! i) AND MAP_PRIVATE H \<noteq> 0
               then fork_cow_pages H (pgdir curproc) (pgdir np)
                      (addr (memoryMappings curproc ! i) + length_m (memoryMappings curproc ! i))
                      s (addr (memoryMappings curproc ! i))
               else Some (Inr s)) of
           None \<Rightarrow> None
         | Some (Inl e) \<Rightarrow> Some (Inl e)
         | Some (Inr s1) \<Rightarrow>
             if length (memoryMappings np) \<le> i then Some (Inl OutOfBounds)
             else fork_mappings H curproc s1
                    (np\<lparr>memoryMappings := (memoryMappings np)[i := memoryMappings curproc ! i]\<rparr>)
                    is))"

text \<open>
  \<open>fork\<close>.  \<open>allocproc\<close> (the scan of the process table and the set-up of the kernel
  stack) and \<open>copyuvm\<close> (vm.c) lie outside the mapping code: the process \<open>allocproc\<close>
  returns is the argument \<open>new_proc\<close> (\<open>None\<close> for the null pointer), and \<open>copyuvm\<close> is a
  parameter that gives the child's page directory (\<open>0\<close> on failure) and the kernel state
  it leaves.  The result is the returned pid (\<open>-1\<close> on failure), the kernel state and the
  child.  Of the process state copied after the loop, \<open>sz\<close> and the open files are kept.
\<close>

definition fork ::
  "hdr \<Rightarrow> (kstate \<Rightarrow> uint \<Rightarrow> uint \<Rightarrow> uint \<times> kstate) \<Rightarrow> proc option \<Rightarrow> kstate \<Rightarrow> proc
    \<Rightarrow> (error + (int \<times> kstate \<times> proc option)) option" where
  "fork H copyuvm new_proc s curproc =
     (case new_proc of
        None \<Rightarrow> Some (Inr (- 1, s, None))
      | Some np0 \<Rightarrow>
          (case copyuvm s (pgdir curproc) (sz curproc) of (pd, s1) \<Rightarrow>
             if pd = 0 then Some (Inr (- 1, s1, None))
             else
               (case fork_mappings H curproc s1
                       (np0\<lparr>num_mappings := num_mappings curproc, pgdir := pd\<rparr>)
                       [0..<nat (num_mappings curproc)] of
                  None \<Rightarrow> None
                | Some (Inl e) \<Rightarrow> Some (Inl e)
                | Some (Inr r) \<Rightarrow>
                    Some (Inr (pid (snd r), fst r,
                               Some ((snd r)\<lparr>sz := sz curproc, ofile := ofile curproc\<rparr>))))))"

section \<open>Vocabulary of the specification\<close>

text \<open>
  The words the specification uses about the allocator, written as it states them, to
  be compared with what the code computes.  A candidate \<open>A\<close> of length \<open>len\<close> fits when
  it is page-aligned, \<open>[A, A + len)\<close> lies inside the arena and meets no live mapping's
  \<open>[addr, addr + round_up_page(length))\<close>; the ranges are ranges of natural numbers.
  \<open>table_ok\<close> is the typing of the mapping table in the data model: the live entries lie
  inside the array and have a length above zero.
\<close>

definition page_aligned :: "uint \<Rightarrow> bool" where
  "page_aligned a = (a mod PGSIZE = 0)"






text \<open>
  The argument marshaller of a system call whose arguments \<open>xs\<close> all lie in readable
  user memory.
\<close>

definition user_args :: "uint list \<Rightarrow> nat \<Rightarrow> uint option" where
  "user_args xs n = (if n < length xs then Some (xs ! n) else None)"

text \<open>
  The validation failures of \<open>mmap\<close> as the specification lists them: a length that is
  not above zero; a non-zero hint below the arena, above its end minus one page, or
  not page-aligned; neither \<open>MAP_SHARED\<close> nor \<open>MAP_PRIVATE\<close>; \<open>MAP_ANONYMOUS\<close> with a
  file descriptor other than \<open>-1\<close> or an offset other than \<open>0\<close>; \<open>MAP_FIXED\<close> with a
  zero or misaligned hint; a file mapping whose descriptor is out of range or not open.
  Addresses are compared as unsigned numbers.
\<close>

definition mmap_rejected :: "hdr \<Rightarrow> proc \<Rightarrow> uint \<Rightarrow> uint \<Rightarrow> uint \<Rightarrow> uint \<Rightarrow> uint \<Rightarrow> bool" where
  "mmap_rejected H p a len fl f off =
     (len \<le>s 0
      \<or> (a \<noteq> 0 \<and> (a < MMAP_AREA_START \<or> MMAP_AREA_END - PGSIZE < a \<or> \<not> page_aligned a))
      \<or> (fl AND MAP_SHARED H = 0 \<and> fl AND MAP_PRIVATE H = 0)
      \<or> (fl AND MAP_ANONYMOUS H \<noteq> 0 \<and> (f \<noteq> - 1 \<or> off \<noteq> 0))
      \<or> (fl AND MAP_FIXED H \<noteq> 0 \<and> (a = 0 \<or> \<not> page_aligned a))
      \<or> (fl AND MAP_ANONYMOUS H = 0 \<and> (f <s 0 \<or> NOFILE H \<le>s f \<or> ofile p ! unat f = None)))"



text \<open>
  The assumptions on the header constants: the page-table bits are flag bits (inside
  the low twelve bits of an entry), and \<open>PTE_COW\<close> is a bit of its own, apart from
  \<open>PTE_W\<close> and \<open>PTE_P\<close>.
\<close>

definition hdr_ok :: "hdr \<Rightarrow> bool" where
  "hdr_ok H =
     (PTE_COW H AND 0xFFF = PTE_COW H \<and> PTE_W H AND 0xFFF = PTE_W H
      \<and> PTE_COW H AND PTE_W H = 0 \<and> PTE_COW H AND PTE_P H = 0 \<and> PTE_COW H \<noteq> 0)"


text \<open>
  What is observed of a fault at \<open>va\<close>: the returned value, the page-table entry of \<open>va\<close>
  after the fault, the free frames, and address and length of every live descriptor.
\<close>

definition fault_outcome ::
  "error + (uint \<times> kstate \<times> proc) \<Rightarrow> uint
     \<Rightarrow> error + (uint \<times> uint option \<times> uint list \<times> (uint \<times> uint) list)" where
  "fault_outcome res va =
     map_sum id (\<lambda>(r, s', p'). (r, pte_at s' (pgdir p') va, freelist s',
        map (\<lambda>i. (addr (memoryMappings p' ! i), length_m (memoryMappings p' ! i)))
          [0..<nat (num_mappings p')])) res"

text \<open>
  The words of the fork claim.  \<open>cow_mark H v\<close> is the entry \<open>v\<close> with \<open>PTE_W\<close> cleared and
  \<open>PTE_COW\<close> set; \<open>cow_inv H s pd\<close> is the invariant ``\<open>PTE_COW\<close> implies not \<open>PTE_W\<close>'' on
  every entry of the address space \<open>pd\<close>.
\<close>

definition cow_mark :: "hdr \<Rightarrow> uint \<Rightarrow> uint" where
  "cow_mark H v = (v AND NOT (PTE_W H)) OR PTE_COW H"

definition cow_inv :: "hdr \<Rightarrow> kstate \<Rightarrow> uint \<Rightarrow> bool" where
  "cow_inv H s pd = (\<forall>pg w. ptes s pd pg = Some w \<longrightarrow> w AND PTE_COW H \<noteq> 0 \<longrightarrow> w AND PTE_W H = 0)"


text \<open>
  For the proofs about the loops of fork: \<open>bits_ok\<close> collects what is assumed of the
  page-table bits; \<open>cow_step\<close> is one round of the page loop at some address;
  \<open>cow_shared\<close> says that parent and child both hold the marked entry for a page;
  \<open>pages_post\<close> is what a page loop that returns has done.
\<close>

definition cow_step :: "hdr \<Rightarrow> uint \<Rightarrow> uint \<Rightarrow> kstate \<Rightarrow> kstate \<Rightarrow> bool" where
  "cow_step H ppd cpd s s' = (\<exists>a. fork_cow_page H s ppd cpd a = Inr s')"

definition cow_shared :: "hdr \<Rightarrow> kstate \<Rightarrow> uint \<Rightarrow> uint \<Rightarrow> uint \<Rightarrow> uint \<Rightarrow> bool" where
  "cow_shared H s ppd cpd pg w =
     (ptes s ppd pg = Some (cow_mark H w) \<and> ptes s cpd pg = Some (cow_mark H w))"

definition bits_ok :: "hdr \<Rightarrow> bool" where
  "bits_ok H = (PTE_COW H AND PTE_W H = 0 \<and> PTE_COW H \<noteq> 0 \<and> PTE_W H AND PTE_P H = 0
     \<and> PTE_COW H AND PTE_P H = 0)"


definition pages_post :: "hdr \<Rightarrow> uint \<Rightarrow> uint \<Rightarrow> uint \<Rightarrow> kstate \<Rightarrow> uint \<Rightarrow> error + kstate \<Rightarrow> bool" where
  "pages_post H ppd cpd e s a y =
   (bits_ok H \<longrightarrow> (\<forall>s'. y = Inr s' \<longrightarrow>
     (cow_step H ppd cpd)\<^sup>*\<^sup>* s s' \<and>
     (\<forall>k t w. unat t = unat a + 4096 * k \<and> unat t < unat e
         \<and> ptes s ppd (PGROUNDDOWN t) = Some w \<and> w AND PTE_P H \<noteq> 0
       \<longrightarrow> cow_shared H s' ppd cpd (PGROUNDDOWN t) w)))"

section \<open>Concrete states\<close>

text \<open>
  States on which the model is run: an instance of the header constants (distinct flag
  bits; the page-table bits, \<open>NOFILE\<close> and \<open>KERNBASE\<close> of xv6; a software bit of the
  page-table entry for \<open>PTE_COW\<close>), a private anonymous mapping as \<open>sys_mmap\<close> records
  it, a process with an empty table, and one with two live mappings.
\<close>

definition xv6_hdr :: hdr where
  "xv6_hdr = \<lparr>MAP_SHARED = 0x2, MAP_PRIVATE = 0x1, MAP_ANONYMOUS = 0x4, MAP_FIXED = 0x8,
     MAP_GROWSUP = 0x10, PTE_P = 0x1, PTE_W = 0x2, PTE_U = 0x4, PTE_COW = 0x200,
     NOFILE = 16, KERNBASE = 0x80000000\<rparr>"

definition anon_page :: "uint \<Rightarrow> uint \<Rightarrow> mem_mapping" where
  "anon_page a len = \<lparr>addr = a, length_m = len, originalLength = len, flags = 5,
     prot = 3, fd = - 1, offset = 0, allocated = 0\<rparr>"

definition proc0 :: proc where
  "proc0 = \<lparr>pid = 3, sz = 0x3000, pgdir = 0x8dfbe000, ofile = replicate 16 None,
     memoryMappings = replicate 32 (anon_page 0 0), num_mappings = 0\<rparr>"

definition proc_two :: proc where
  "proc_two = proc0\<lparr>memoryMappings :=
       (memoryMappings proc0)[0 := anon_page 0x60000000 4096, 1 := anon_page 0x60002000 100],
     num_mappings := 2\<rparr>"

text \<open>
  A kernel state with two free frames and no page table, the content of an
  uninitialised stack buffer, a process with one private anonymous page, and that
  process after a fork: its page present, read-only and copy-on-write, the frame
  holding the byte \<open>7\<close>; the last state has no free frame.
\<close>

definition kstate0 :: kstate where
  "kstate0 = \<lparr>kmem = (\<lambda>a. 0), freelist = [0x8dffe000, 0x8dffd000], ptes = (\<lambda>pd pg. None),
     disk = (\<lambda>i. []), trace = []\<rparr>"

definition no_stack :: "nat \<Rightarrow> byte" where
  "no_stack k = 0xCC"

definition proc_one :: proc where
  "proc_one = proc0\<lparr>memoryMappings := (memoryMappings proc0)[0 := anon_page 0x60000000 4096],
     num_mappings := 1\<rparr>"

definition cow_state :: kstate where
  "cow_state = kstate0\<lparr>kmem := (\<lambda>a. if a - 0x8dfff000 < 4096 then 7 else 0),
     ptes := (\<lambda>pd pg. if pd = 0x8dfbe000 \<and> pg = 0x60000000 then Some 0x0dfff205 else None)\<rparr>"

definition cow_state_oom :: kstate where
  "cow_state_oom = cow_state\<lparr>freelist := []\<rparr>"

text \<open>
  More states: one free frame only; a process whose one page may grow upward, alone,
  with a second mapping two pages above it, with a second mapping right above it, and
  with two mappings above it, ten pages and two pages up, in both orders; a file of a page of \<open>0x41\<close> followed by
  a page of \<open>0x42\<close>, and a process that maps it privately through descriptor \<open>3\<close> with
  a recorded offset of one page.
\<close>

definition one_frame_state :: kstate where
  "one_frame_state = kstate0\<lparr>freelist := [0x8dffe000]\<rparr>"

definition proc_grow :: proc where
  "proc_grow = proc0\<lparr>memoryMappings :=
       (memoryMappings proc0)[0 := (anon_page 0x60000000 4096)\<lparr>flags := 0x15\<rparr>],
     num_mappings := 1\<rparr>"

definition proc_grow_blocked :: proc where
  "proc_grow_blocked = proc_grow\<lparr>memoryMappings :=
       (memoryMappings proc_grow)[1 := anon_page 0x60002000 4096],
     num_mappings := 2\<rparr>"

definition proc_grow_abut :: proc where
  "proc_grow_abut = proc_grow\<lparr>memoryMappings :=
       (memoryMappings proc_grow)[1 := anon_page 0x60001000 4096],
     num_mappings := 2\<rparr>"

definition proc_grow_far_first :: proc where
  "proc_grow_far_first = proc_grow\<lparr>memoryMappings :=
       (memoryMappings proc_grow)[1 := anon_page 0x6000A000 4096, 2 := anon_page 0x60002000 4096],
     num_mappings := 3\<rparr>"

definition proc_grow_near_first :: proc where
  "proc_grow_near_first = proc_grow\<lparr>memoryMappings :=
       (memoryMappings proc_grow)[1 := anon_page 0x60002000 4096, 2 := anon_page 0x6000A000 4096],
     num_mappings := 3\<rparr>"



text \<open>
  A parent whose one private page is present and writable, a \<open>copyuvm\<close> that hands out
  an empty page directory, and the process \<open>allocproc\<close> returns.
\<close>

definition parent_state :: kstate where
  "parent_state = kstate0\<lparr>kmem := (\<lambda>a. if a - 0x8dfff000 < 4096 then 7 else 0),
     ptes := (\<lambda>pd pg. if pd = 0x8dfbe000 \<and> pg = 0x60000000 then Some 0x0dfff007 else None)\<rparr>"

definition copyuvm_empty :: "kstate \<Rightarrow> uint \<Rightarrow> uint \<Rightarrow> uint \<times> kstate" where
  "copyuvm_empty s pd size_arg = (0x8dfbd000, s)"

definition child0 :: proc where
  "child0 = proc0\<lparr>pid := 4, sz := 0, pgdir := 0\<rparr>"

text \<open>
  The table after \<open>k\<close> one-page private anonymous regions have been placed from the start
  of the arena (\<open>page_no j\<close> is the address of the \<open>j\<close>-th page of the arena), the
  arguments of such a call, and \<open>n\<close> such calls in a row, which stop at the first one that
  does not return.
\<close>

definition page_no :: "nat \<Rightarrow> uint" where
  "page_no j = MMAP_AREA_START + PGSIZE * of_nat j"

definition pages_table :: "nat \<Rightarrow> proc" where
  "pages_table k = proc0\<lparr>memoryMappings :=
       map (\<lambda>j. if j < k then anon_page (page_no j) 4096 else anon_page 0 0) [0..<32],
     num_mappings := int k\<rparr>"

definition one_page_args :: "nat \<Rightarrow> uint option" where
  "one_page_args = user_args [0, 4096, 3, 5, - 1, 0]"

fun mmap_times :: "nat \<Rightarrow> proc \<Rightarrow> error + (uint list \<times> proc)" where
  "mmap_times 0 p = Inr ([], p)"
| "mmap_times (Suc n) p =
     (case mmap_times n p of
        Inl e \<Rightarrow> Inl e
      | Inr (rs, q) \<Rightarrow>
          (case sys_mmap xv6_hdr one_page_args (anon_page 0 0) q of
             Inl e \<Rightarrow> Inl e
           | Inr (r, q') \<Rightarrow> Inr (rs @ [r], q')))"

section \<open>Properties\<close>

subsection \<open>Arithmetic of addresses\<close>


lemma and_not_4095: "(x::uint) AND NOT 4095 = push_bit 12 (drop_bit 12 x)"
proof -
  have m: "(4095::uint) = mask 12" by (simp add: mask_eq_exp_minus_1)
  show ?thesis unfolding m by (rule bit_eqI) (auto simp add: bit_simps)
qed

lemma unat_PGROUNDDOWN: "unat (PGROUNDDOWN a) = unat a div 4096 * 4096"
proof -
  have "PGROUNDDOWN a = push_bit 12 (drop_bit 12 a)"
    using and_not_4095[of a] by (simp add: PGROUNDDOWN_def PGSIZE_def)
  also have "\<dots> = (a div 4096) * 4096"
    by (simp add: push_bit_eq_mult drop_bit_eq_div)
  finally have "unat (PGROUNDDOWN a) = (unat (a div 4096) * 4096) mod 4294967296"
    by (simp add: unat_word_ariths)
  moreover have "unat (a div 4096) = unat a div 4096"
    by (simp add: unat_div)
  moreover have "unat a div 4096 * 4096 \<le> unat a" by simp
  moreover have "unat a < 4294967296" using unsigned_less[of a, where ?'a = nat] by simp
  ultimately show ?thesis by simp
qed




lemma overlap_scan_all:
  "\<forall>i \<in> set is. i < length mm \<Longrightarrow>
   overlap_scan mm is a len =
     Inr (\<exists>i \<in> set is. addr (mm ! i) < a + len \<and> a < addr (mm ! i) + PGROUNDUP (length_m (mm ! i)))"
  by (induction "is") (auto simp: Let_def)




lemma page_aligned_unat: "page_aligned a = (unat a mod 4096 = 0)"
proof -
  have "(a mod 4096 = 0) = (unat (a mod 4096) = 0)" by (simp add: unat_eq_zero)
  then show ?thesis by (simp add: page_aligned_def PGSIZE_def unat_mod)
qed





subsection \<open>The allocator is first-fit\<close>






subsection \<open>Validation of the arguments of mmap\<close>

text \<open>Signed and unsigned readings of a 32-bit value.\<close>

lemma sint_cases:
  "(unat (a::uint) < 2147483648 \<and> sint a = int (unat a)) \<or> (2147483648 \<le> unat a \<and> sint a < 0)"
proof (cases "0 \<le> sint a")
  case True
  have q: "sint a < 2147483648" using sint_lt[of a] by simp
  have "uint a = take_bit LENGTH(32) (sint a)" by (rule uint_sint)
  also have "\<dots> = sint a" using True q by (intro take_bit_int_eq_self) simp_all
  finally have e: "uint a = sint a" .
  have u: "int (unat a) = uint a" by simp
  have "int (unat a) < 2147483648" "sint a = int (unat a)" unfolding u e using q by blast+
  then show ?thesis by linarith
next
  case False
  have q: "- 2147483648 \<le> sint a" using sint_ge[of a] by simp
  have "uint a = take_bit LENGTH(32) (sint a)" by (rule uint_sint)
  also have "\<dots> = sint a mod 4294967296" by (simp add: take_bit_eq_mod)
  also have "\<dots> = (sint a + 4294967296) mod 4294967296" by simp
  also have "\<dots> = sint a + 4294967296" using q False by (intro mod_pos_pos_trivial) simp_all
  finally have e: "uint a = sint a + 4294967296" .
  have u: "int (unat a) = uint a" by simp
  have "2147483648 \<le> int (unat a)" unfolding u e using q by simp
  then have "2147483648 \<le> unat a" by linarith
  then show ?thesis using False by simp
qed

lemma smod_nat: "(int n smod 4096 \<noteq> 0) = (n mod 4096 \<noteq> 0)"
proof -
  have "int n mod 4096 = int (n mod 4096)" by (simp add: zmod_int)
  then have "(int n mod 4096 \<noteq> 0) = (n mod 4096 \<noteq> 0)" by (simp only: of_nat_eq_0_iff)
  moreover have "int n smod 4096 = int n mod 4096"
    by (cases "n = 0") (simp_all add: smod_int_alt_def)
  ultimately show ?thesis by (simp only:)
qed

lemma hint_check_unsigned:
  "(a <s MMAP_AREA_START \<or> (MMAP_AREA_END - PGSIZE) <s a \<or> sint a smod 4096 \<noteq> 0) =
   (a < MMAP_AREA_START \<or> MMAP_AREA_END - PGSIZE < a \<or> \<not> page_aligned a)"
proof -
  have c: "sint MMAP_AREA_START = 1610612736" "sint (MMAP_AREA_END - PGSIZE) = 2147479552"
    "unat MMAP_AREA_START = 1610612736" "unat (MMAP_AREA_END - PGSIZE) = 2147479552"
    by (simp_all add: MMAP_AREA_START_def MMAP_AREA_END_def PGSIZE_def)
  consider (small) "unat a < 2147483648" "sint a = int (unat a)"
    | (big) "2147483648 \<le> unat a" "sint a < 0"
    using sint_cases[of a] by blast
  then show ?thesis
  proof cases
    case small
    define n where "n = unat a"
    have sm: "(sint a smod 4096 \<noteq> 0) = (n mod 4096 \<noteq> 0)"
      unfolding small(2) n_def by (rule smod_nat)
    have lt: "(sint a < 1610612736) = (n < 1610612736)" "(2147479552 < sint a) = (2147479552 < n)"
      unfolding small(2) n_def by linarith+
    show ?thesis
      unfolding word_sless_alt word_less_nat_alt page_aligned_unat c sm lt n_def [symmetric]
      by simp
  next
    case big
    then show ?thesis using c by (simp add: word_sless_alt word_less_nat_alt)
  qed
qed

lemma mod_PGSIZE_aligned: "(a mod PGSIZE \<noteq> 0) = (\<not> page_aligned a)"
  by (simp add: page_aligned_def)

lemma fd_in_range:
  assumes "\<not> (f <s 0 \<or> NOFILE H \<le>s f)" shows "unat f < unat (NOFILE H)"
proof -
  have f: "0 \<le> sint f" "sint f < sint (NOFILE H)"
    using assms by (simp_all add: word_sless_alt word_sle_eq)
  then have "sint f = int (unat f)" "sint (NOFILE H) = int (unat (NOFILE H))"
    using sint_cases[of f] sint_cases[of "NOFILE H"] by linarith+
  then show ?thesis using f by linarith
qed

lemma sys_mmap_args:
  "sys_mmap H (user_args [a, len, pr, fl, f, off]) stack p = mmap_body H stack p a len pr fl f off"
  by (simp add: sys_mmap_def user_args_def)

text \<open>
  Claim C10.  In a process whose open-file table has \<open>NOFILE\<close> slots, every \<open>mmap\<close> call
  that fails validation (length not above zero; non-zero hint below the arena, above
  its end minus one page, or misaligned; neither \<open>MAP_SHARED\<close> nor \<open>MAP_PRIVATE\<close>;
  \<open>MAP_ANONYMOUS\<close> with \<open>fd \<noteq> -1\<close> or \<open>offset \<noteq> 0\<close>; \<open>MAP_FIXED\<close> with a zero or
  misaligned hint; a file mapping with an invalid or unopened descriptor) returns \<open>-1\<close>
  and leaves the process, so the mapping table and \<open>num_mappings\<close>, as it was.  A call
  that sets both \<open>MAP_SHARED\<close> and \<open>MAP_PRIVATE\<close> and fails none of these checks is not
  rejected: it goes on to the placement of the region.
\<close>

theorem mmap_validation:
  assumes "unat (NOFILE H) \<le> length (ofile p)"
  shows "(mmap_rejected H p a len fl f off \<longrightarrow>
            sys_mmap H (user_args [a, len, pr, fl, f, off]) stack p = Inr (- 1, p)) \<and>
         (fl AND MAP_SHARED H \<noteq> 0 \<and> fl AND MAP_PRIVATE H \<noteq> 0 \<and>
          \<not> mmap_rejected H p a len fl f off \<longrightarrow>
            sys_mmap H (user_args [a, len, pr, fl, f, off]) stack p =
              mmap_place H stack p a len fl f)"
proof -
  have oob: "\<not> length (ofile p) \<le> unat f" if "\<not> (f <s 0 \<or> NOFILE H \<le>s f)"
    using fd_in_range[OF that] assms by simp
  show ?thesis
    unfolding sys_mmap_args mmap_body_def mmap_rejected_def hint_check_unsigned mod_PGSIZE_aligned
    using oob by auto
qed

text \<open>
  The theorem at a call of length \<open>0\<close>, which is rejected, and at a one-page anonymous
  call with both \<open>MAP_SHARED\<close> and \<open>MAP_PRIVATE\<close>, which is placed at the start of the
  arena.
\<close>

lemma proc0_ofile: "unat (NOFILE xv6_hdr) \<le> length (ofile proc0)"
  by (simp add: xv6_hdr_def proc0_def)

lemma len0_rejected: "mmap_rejected xv6_hdr proc0 0 0 5 (- 1) 0" by code_simp
lemma both_flags_accepted: "\<not> mmap_rejected xv6_hdr proc0 0 4096 7 (- 1) 0" by code_simp
lemma both_flags_placed: "map_sum id fst (mmap_place xv6_hdr (anon_page 0 0) proc0 0 4096 7 (- 1)) = Inr 0x60000000" by code_simp
lemma both_flags_set: "(7 :: uint) AND MAP_SHARED xv6_hdr \<noteq> 0 \<and> (7 :: uint) AND MAP_PRIVATE xv6_hdr \<noteq> 0" by code_simp

theorem mmap_validation_witness:
  "unat (NOFILE xv6_hdr) \<le> length (ofile proc0) \<and>
   mmap_rejected xv6_hdr proc0 0 0 5 (- 1) 0 \<and>
   sys_mmap xv6_hdr (user_args [0, 0, 3, 5, - 1, 0]) (anon_page 0 0) proc0 = Inr (- 1, proc0) \<and>
   (7 :: uint) AND MAP_SHARED xv6_hdr \<noteq> 0 \<and> (7 :: uint) AND MAP_PRIVATE xv6_hdr \<noteq> 0 \<and>
   \<not> mmap_rejected xv6_hdr proc0 0 4096 7 (- 1) 0 \<and>
   map_sum id fst (sys_mmap xv6_hdr (user_args [0, 4096, 3, 7, - 1, 0]) (anon_page 0 0) proc0)
     = Inr 0x60000000"
  using mmap_validation [OF proc0_ofile, of 0 0 5 "- 1" 0 3 "anon_page 0 0"]
    mmap_validation [OF proc0_ofile, of 0 4096 7 "- 1" 0 3 "anon_page 0 0"]
    proc0_ofile len0_rejected both_flags_accepted both_flags_placed both_flags_set
  by simp

subsection \<open>The copy-on-write fault\<close>

text \<open>Bits of a page-table entry, and the effect of the stores on the state.\<close>

lemma m12: "(0xFFF::uint) = mask 12" by (simp add: mask_eq_exp_minus_1)

lemma flag_bit_low:
  assumes "(C::uint) AND 0xFFF = C" "bit C n" shows "n < 12"
proof -
  have "bit (C AND mask 12) n" using assms unfolding m12 by simp
  then show ?thesis by (simp add: bit_and_iff bit_mask_iff)
qed

lemma frame_bit_high:
  assumes "(A::uint) AND 0xFFF = 0" "bit A n" shows "\<not> n < 12"
proof
  assume "n < 12"
  then have "bit (A AND mask 12) n" using assms(2) by (simp add: bit_and_iff bit_mask_iff bit_imp_possible_bit)
  then show False using assms(1) unfolding m12 by simp
qed

lemma cow_pte_bits:
  assumes "(C::uint) AND 0xFFF = C" "(W::uint) AND 0xFFF = W" "(A::uint) AND 0xFFF = 0"
  shows "PTE_ADDR ((A OR PTE_FLAGS v OR W) AND NOT C) = A"
    and "PTE_FLAGS ((A OR PTE_FLAGS v OR W) AND NOT C) = (PTE_FLAGS v OR W) AND NOT C"
proof -
  note c = flag_bit_low[OF assms(1)] and w = flag_bit_low[OF assms(2)] and a = frame_bit_high[OF assms(3)]
  show "PTE_ADDR ((A OR PTE_FLAGS v OR W) AND NOT C) = A"
    unfolding PTE_ADDR_def PTE_FLAGS_def m12
    by (rule bit_eqI) (use c w a in \<open>auto simp add: bit_simps\<close>)
  show "PTE_FLAGS ((A OR PTE_FLAGS v OR W) AND NOT C) = (PTE_FLAGS v OR W) AND NOT C"
    unfolding PTE_ADDR_def PTE_FLAGS_def m12
    by (rule bit_eqI) (use c w a in \<open>auto simp add: bit_simps\<close>)
qed

lemma memmove_kmem:
  "off < n \<Longrightarrow> kmem (memmove s dst src n) (dst + off) = kmem s (src + off)"
  by (simp add: memmove_def)

lemma pte_at_store [simp]:
  "pte_at (pte_store s pd va v) pd va = Some v"
  by (simp add: pte_at_def pte_store_def)

lemma pte_deref_store [simp]:
  "pte_deref (pte_store s pd va v) pd va = v"
  by (simp add: pte_deref_def)

lemma kmem_pte_store [simp]: "kmem (pte_store s pd va v) = kmem s"
  by (simp add: pte_store_def)

lemma trace_pte_store [simp]: "trace (pte_store s pd va v) = trace s"
  by (simp add: pte_store_def)

lemma freelist_pte_store [simp]: "freelist (pte_store s pd va v) = freelist s"
  by (simp add: pte_store_def)

lemma pte_store_twice [simp]:
  "pte_store (pte_store s pd va v) pd va w = pte_store s pd va w"
  by (simp add: pte_store_def)

text \<open>
  Claim C7, amended.  For every fault at an address whose page-table entry exists, is
  present, has \<open>PTE_COW\<close> set and \<open>PTE_W\<close> clear, when the allocator has a frame to give,
  the handler takes that frame, copies the whole page of the old frame into it byte by
  byte, rewrites the entry to the new frame with the old flags, \<open>PTE_W\<close> set and
  \<open>PTE_COW\<close> cleared, reloads \<open>cr3\<close> with the page directory of the current process,
  and returns \<open>1\<close>.  (\<open>PTE_COW\<close> and \<open>PTE_W\<close> are flag bits apart from each other, and
  frames are page-aligned.)
\<close>

theorem cow_fault_resolved:
  assumes H: "hdr_ok H"
    and pte: "pte_at s (pgdir p) va = Some v"
    and present: "v AND PTE_P H \<noteq> 0"
    and cow: "v AND PTE_COW H \<noteq> 0"
    and ro: "v AND PTE_W H = 0"
    and frame: "freelist s = mem # rest" "mem \<noteq> 0" "V2P H mem AND 0xFFF = 0"
  shows "\<exists>s'. page_fault_handler H stack s p va = Inr (1, s', p) \<and>
     freelist s' = rest \<and>
     (\<forall>off. off < PGSIZE \<longrightarrow> kmem s' (mem + off) = kmem s (P2V H (PTE_ADDR v) + off)) \<and>
     pte_at s' (pgdir p) va = Some ((V2P H mem OR PTE_FLAGS v OR PTE_W H) AND NOT (PTE_COW H)) \<and>
     PTE_ADDR (pte_deref s' (pgdir p) va) = V2P H mem \<and>
     PTE_FLAGS (pte_deref s' (pgdir p) va) = (PTE_FLAGS v OR PTE_W H) AND NOT (PTE_COW H) \<and>
     trace s' = trace s @ [Lcr3 (V2P H (pgdir p))]"
proof -
  define s1 where "s1 = s\<lparr>freelist := rest\<rparr>"
  define s2 where "s2 = memmove s1 mem (P2V H (PTE_ADDR v)) PGSIZE"
  define nv where "nv = (V2P H mem OR PTE_FLAGS v OR PTE_W H) AND NOT (PTE_COW H)"
  define s' where "s' = emit (Lcr3 (V2P H (pgdir p))) (pte_store s2 (pgdir p) va nv)"
  have k: "kalloc s = (mem, s1)" using frame(1) by (simp add: kalloc_def s1_def)
  have r: "page_fault_handler H stack s p va = Inr (1, s', p)"
    using pte cow ro k frame(2)
    by (simp add: page_fault_handler_def cow_fault_def Let_def s2_def s'_def nv_def)
  have f: "freelist s' = rest"
    by (simp add: s'_def emit_def s2_def memmove_def s1_def)
  have m: "kmem s' (mem + off) = kmem s (P2V H (PTE_ADDR v) + off)" if "off < PGSIZE" for off
    using that by (simp add: s'_def emit_def s2_def memmove_kmem s1_def)
  have q: "pte_at s' (pgdir p) va = Some nv" "pte_deref s' (pgdir p) va = nv"
    by (simp_all add: s'_def emit_def pte_at_def pte_deref_def pte_store_def)
  have b: "PTE_ADDR nv = V2P H mem" "PTE_FLAGS nv = (PTE_FLAGS v OR PTE_W H) AND NOT (PTE_COW H)"
    unfolding nv_def using H frame(3) by (simp_all add: cow_pte_bits hdr_ok_def)
  have t: "trace s' = trace s @ [Lcr3 (V2P H (pgdir p))]"
    by (simp add: s'_def emit_def s2_def memmove_def s1_def)
  show ?thesis
    by (intro exI[of _ s'] conjI allI impI) (simp_all add: r f m q b t, simp add: nv_def)
qed

text \<open>The theorem at the forked process: the new entry and a byte of the copy.\<close>

lemma xv6_hdr_ok: "hdr_ok xv6_hdr"
  by (simp add: hdr_ok_def xv6_hdr_def)

lemma cow_state_pte: "pte_at cow_state (pgdir proc_one) 0x60000000 = Some 0x0dfff205"
  by (simp add: pte_at_def cow_state_def kstate0_def proc_one_def proc0_def PGROUNDDOWN_def PGSIZE_def)

lemma cow_state_frame: "freelist cow_state = [0x8dffe000, 0x8dffd000]"
  by (simp add: cow_state_def kstate0_def)

theorem cow_fault_resolved_witness:
  "hdr_ok xv6_hdr \<and> pte_at cow_state (pgdir proc_one) 0x60000000 = Some 0x0dfff205 \<and>
   (0x0dfff205 :: uint) AND PTE_P xv6_hdr \<noteq> 0 \<and> (0x0dfff205 :: uint) AND PTE_COW xv6_hdr \<noteq> 0 \<and>
   (0x0dfff205 :: uint) AND PTE_W xv6_hdr = 0 \<and> freelist cow_state = [0x8dffe000, 0x8dffd000] \<and>
   (\<exists>s'. page_fault_handler xv6_hdr no_stack cow_state proc_one 0x60000000 = Inr (1, s', proc_one) \<and>
      pte_at s' (pgdir proc_one) 0x60000000 = Some 0x0dffe007 \<and>
      kmem s' 0x8dffe010 = 7 \<and> trace s' = [Lcr3 0x0dfbe000])"
proof -
  have b: "(0x0dfff205 :: uint) AND PTE_P xv6_hdr \<noteq> 0" "(0x0dfff205 :: uint) AND PTE_COW xv6_hdr \<noteq> 0"
    "(0x0dfff205 :: uint) AND PTE_W xv6_hdr = 0"
    by (simp_all add: xv6_hdr_def)
  have f: "(0x8dffe000 :: uint) \<noteq> 0" "V2P xv6_hdr 0x8dffe000 AND 0xFFF = 0"
    by (simp_all add: V2P_def xv6_hdr_def)
  obtain s' where s': "page_fault_handler xv6_hdr no_stack cow_state proc_one 0x60000000 = Inr (1, s', proc_one)"
    "\<forall>off. off < PGSIZE \<longrightarrow> kmem s' (0x8dffe000 + off) = kmem cow_state (P2V xv6_hdr (PTE_ADDR 0x0dfff205) + off)"
    "pte_at s' (pgdir proc_one) 0x60000000 =
       Some ((V2P xv6_hdr 0x8dffe000 OR PTE_FLAGS 0x0dfff205 OR PTE_W xv6_hdr) AND NOT (PTE_COW xv6_hdr))"
    "trace s' = trace cow_state @ [Lcr3 (V2P xv6_hdr (pgdir proc_one))]"
    using cow_fault_resolved [OF xv6_hdr_ok cow_state_pte b cow_state_frame f, of no_stack] by blast
  have "(0x10 :: uint) < PGSIZE" by (simp add: PGSIZE_def)
  then have "kmem s' (0x8dffe000 + 0x10) = kmem cow_state (P2V xv6_hdr (PTE_ADDR 0x0dfff205) + 0x10)"
    using s'(2) by blast
  then have k: "kmem s' 0x8dffe010 = 7"
    by (simp add: cow_state_def kstate0_def P2V_def PTE_ADDR_def xv6_hdr_def)
  have p: "pte_at s' (pgdir proc_one) 0x60000000 = Some 0x0dffe007"
    using s'(3) by (simp add: V2P_def PTE_FLAGS_def xv6_hdr_def)
  have t: "trace s' = [Lcr3 0x0dfbe000]"
    using s'(4) by (simp add: cow_state_def kstate0_def V2P_def xv6_hdr_def proc_one_def proc0_def)
  show ?thesis using xv6_hdr_ok cow_state_pte b cow_state_frame s'(1) k p t by blast
qed

text \<open>
  Claim C7 as stated fails when the allocator has no frame: the entry is present,
  copy-on-write and read-only, and the handler panics instead of returning \<open>1\<close>.
\<close>

theorem cow_fault_out_of_memory:
  "pte_at cow_state_oom (pgdir proc_one) 0x60000000 = Some 0x0dfff205 \<and>
   (0x0dfff205 :: uint) AND PTE_P xv6_hdr \<noteq> 0 \<and> (0x0dfff205 :: uint) AND PTE_COW xv6_hdr \<noteq> 0 \<and>
   (0x0dfff205 :: uint) AND PTE_W xv6_hdr = 0 \<and>
   page_fault_handler xv6_hdr no_stack cow_state_oom proc_one 0x60000000
     = Inl (Panic ''Out of memory - COW page fault handler'')"
  by (simp add: page_fault_handler_def cow_fault_def kalloc_def pte_at_def cow_state_oom_def
      cow_state_def kstate0_def proc_one_def proc0_def PGROUNDDOWN_def PGSIZE_def xv6_hdr_def)

subsection \<open>The lazy fill\<close>







text \<open>The definitions unfolded to run the handler on a concrete state.\<close>

lemmas pf_eval = page_fault_handler_def pf_fill_def pf_inode_def pf_grow_def growsup_def
  file_fill_def segfault_def cow_fault_def mappages_def walkpgdir_create_def kalloc_def kfree_def
  pte_at_def pte_store_def pte_deref_def memset_def memmove_def memmove_from_buffer_def readi_def
  ilock_def emit_def ofile_at_def
  PGROUNDDOWN_def PGROUNDUP_def PGSIZE_def V2P_def P2V_def PTE_ADDR_def PTE_FLAGS_def Let_def
  xv6_hdr_def kstate0_def proc0_def anon_page_def no_stack_def


text \<open>The handler at the growable mappings.\<close>

lemma upt_3: "[0..<3] = [0, 1, 2]"
  by (simp add: upt_conv_Cons)

lemmas grow_eval = pf_eval proc_grow_def proc_grow_blocked_def proc_grow_abut_def
  proc_grow_far_first_def proc_grow_near_first_def fault_outcome_def word_sless_alt

lemma guard_page_fault:
  "page_fault_handler xv6_hdr no_stack kstate0 proc_grow 0x60001000
     = Inr (- 1, emit (Cprintf ''Segmentation Fault'') kstate0, proc_grow)"
  by (simp add: grow_eval upt_conv_Cons)

lemma grow_inside_bounds:
  "fault_outcome (page_fault_handler xv6_hdr no_stack kstate0 proc_grow 0x60000000) 0x60000000
     = Inr (1, Some 0x0dffe007, [], [(0x60000000, 8192)])"
  by (simp add: grow_eval upt_conv_Cons)

lemma blocked_fault_unserviced:
  "fault_outcome (page_fault_handler xv6_hdr no_stack kstate0 proc_grow_blocked 0x60000000) 0x60000000
     = Inr (- 1, None, [0x8dffd000], [(0x60000000, 4096), (0x60002000, 4096)])"
  by (simp add: grow_eval upt_conv_Cons)

lemma grow_over_neighbour:
  "fault_outcome (page_fault_handler xv6_hdr no_stack kstate0 proc_grow_abut 0x60000000) 0x60000000
     = Inr (1, Some 0x0dffe007, [], [(0x60000000, 8192), (0x60001000, 4096)])"
  by (simp add: grow_eval upt_conv_Cons)

lemma grow_far_first:
  "fault_outcome (page_fault_handler xv6_hdr no_stack kstate0 proc_grow_far_first 0x60000000) 0x60000000
     = Inr (1, Some 0x0dffe007, [],
         [(0x60000000, 8192), (0x6000A000, 4096), (0x60002000, 4096)])"
  by (simp add: grow_eval upt_3)

lemma grow_near_first:
  "fault_outcome (page_fault_handler xv6_hdr no_stack kstate0 proc_grow_near_first 0x60000000) 0x60000000
     = Inr (- 1, None, [0x8dffd000],
         [(0x60000000, 4096), (0x60002000, 4096), (0x6000A000, 4096)])"
  by (simp add: grow_eval upt_3)

text \<open>
  Claim C4.  A descriptor with \<open>MAP_GROWSUP\<close> must grow by one page exactly when the
  fault is at or beyond its end and a free page lies between
  \<open>round_up_page(addr + length) + page\<close> and the next mapping above; a fault inside the
  old bounds must be serviced also when there is no room.  The code does neither.
  With \<open>kstate0\<close> (two free frames, no page table) and a one-page growable mapping at
  \<open>0x60000000\<close>:
  \<^item> a fault on the page right above the mapping, \<open>0x60001000\<close>, lands in no descriptor:
    the handler prints ``Segmentation Fault'' and returns \<open>-1\<close>, nothing else changes
    and the mapping keeps its length;
  \<^item> a fault at \<open>0x60000000\<close>, inside the bounds, grows the mapping to two pages;
  \<^item> with a second mapping at \<open>0x60002000\<close> the same fault is not serviced: the handler
    returns \<open>-1\<close>, the page has no entry, and the frame taken from the free list is
    neither installed nor given back;
  \<^item> with a second mapping at \<open>0x60001000\<close>, right above, the same fault grows the
    mapping to \<open>0x60002000\<close>, over its neighbour;
  \<^item> with mappings at \<open>0x6000A000\<close> and \<open>0x60002000\<close>, the nearest one leaving no room,
    the mapping grows when the far one comes first in the table, and the fault is
    refused when the near one comes first.
\<close>

theorem growsup_fault_diverges:
  "page_fault_handler xv6_hdr no_stack kstate0 proc_grow 0x60001000
     = Inr (- 1, emit (Cprintf ''Segmentation Fault'') kstate0, proc_grow) \<and>
   fault_outcome (page_fault_handler xv6_hdr no_stack kstate0 proc_grow 0x60000000) 0x60000000
     = Inr (1, Some 0x0dffe007, [], [(0x60000000, 8192)]) \<and>
   fault_outcome (page_fault_handler xv6_hdr no_stack kstate0 proc_grow_blocked 0x60000000) 0x60000000
     = Inr (- 1, None, [0x8dffd000], [(0x60000000, 4096), (0x60002000, 4096)]) \<and>
   fault_outcome (page_fault_handler xv6_hdr no_stack kstate0 proc_grow_abut 0x60000000) 0x60000000
     = Inr (1, Some 0x0dffe007, [], [(0x60000000, 8192), (0x60001000, 4096)]) \<and>
   fault_outcome (page_fault_handler xv6_hdr no_stack kstate0 proc_grow_far_first 0x60000000) 0x60000000
     = Inr (1, Some 0x0dffe007, [],
         [(0x60000000, 8192), (0x6000A000, 4096), (0x60002000, 4096)]) \<and>
   fault_outcome (page_fault_handler xv6_hdr no_stack kstate0 proc_grow_near_first 0x60000000) 0x60000000
     = Inr (- 1, None, [0x8dffd000],
         [(0x60000000, 4096), (0x60002000, 4096), (0x6000A000, 4096)])"
  by (intro conjI guard_page_fault grow_inside_bounds blocked_fault_unserviced
      grow_over_neighbour grow_far_first grow_near_first)


text \<open>
  Claim C5.  When \<open>mappages\<close> fails after the frame has been allocated the handler must
  free the frame and return \<open>-1\<close>.  The code frees the frame and returns \<open>1\<close>: with one
  free frame and no page-table page, the frame goes to the page, the walker finds no
  frame for the page table, and the fault is reported resolved with no entry installed.
\<close>

theorem unmapped_fault_reported_resolved:
  "map_sum id (\<lambda>(r, s', p'). (r, pte_at s' (pgdir p') 0x60000000, freelist s'))
     (page_fault_handler xv6_hdr no_stack one_frame_state proc_one 0x60000000)
   = Inr (1, None, [0x8dffe000])"
  by (simp add: pf_eval one_frame_state_def proc_one_def word_sless_alt)














subsection \<open>munmap\<close>

text \<open>
  Claim C1.  When a descriptor of the table contains the range, \<open>munmap\<close> must return \<open>0\<close>
  and remove exactly that descriptor.  The code looks at entry \<open>0\<close> only and removes
  entry \<open>0\<close> in any case: with the range inside the descriptor at index \<open>1\<close>, the call
  returns \<open>-1\<close>, the descriptor at index \<open>0\<close> is gone and the one that contains the range
  has moved to index \<open>0\<close>.
\<close>

theorem munmap_removes_first_entry_instead:
  "addr (memoryMappings proc_two ! 1) \<le> 0x60002000 \<and>
   (0x60002000 :: uint) + 100 \<le> addr (memoryMappings proc_two ! 1) + length_m (memoryMappings proc_two ! 1) \<and>
   num_mappings proc_two = 2 \<and>
   map_option (map_sum id (\<lambda>(r, s', p'). (r, num_mappings p', memoryMappings p' ! 0)))
     (sys_munmap xv6_hdr (user_args [0x60002000, 100]) no_stack kstate0 proc_two)
   = Some (Inr (- 1, 1, anon_page 0x60002000 100))"
  by (simp add: sys_munmap_def munmap_body_def munmap_remove_def user_args_def proc_two_def
      proc0_def anon_page_def upt_conv_Cons)


text \<open>
  Claim C2.  A call whose range lies in no descriptor must return \<open>-1\<close> and leave the
  table as it was.  The code returns \<open>-1\<close>, but it has removed entry \<open>0\<close> first:
  \<open>num_mappings\<close> goes from \<open>1\<close> to \<open>0\<close>.
\<close>

theorem munmap_miss_removes_first_entry:
  "\<not> (addr (memoryMappings proc_one ! 0) \<le> 0x70000000 \<and>
      (0x70000000 :: uint) + 4096
        \<le> addr (memoryMappings proc_one ! 0) + length_m (memoryMappings proc_one ! 0)) \<and>
   num_mappings proc_one = 1 \<and>
   map_option (map_sum id (\<lambda>(r, s', p'). (r, num_mappings p')))
     (sys_munmap xv6_hdr (user_args [0x70000000, 4096]) no_stack kstate0 proc_one)
   = Some (Inr (- 1, 0))"
  by (simp add: sys_munmap_def munmap_body_def munmap_remove_def user_args_def proc_one_def
      proc0_def anon_page_def upt_conv_Cons)

subsection \<open>fork\<close>

text \<open>Stores, the walker and the marking of an entry.\<close>

lemma ptes_store:
  "ptes (pte_store s pd va v) pd' pg =
     (if pd' = pd \<and> pg = PGROUNDDOWN va then Some v else ptes s pd' pg)"
  by (simp add: pte_store_def)

lemma ptes_emit [simp]: "ptes (emit ev s) = ptes s"
  by (simp add: emit_def)

lemma walkpgdir_create_keeps:
  "walkpgdir_create s pd va = (ok, s') \<Longrightarrow> ptes s pd' pg = Some w \<Longrightarrow> ptes s' pd' pg = Some w"
  by (auto simp add: walkpgdir_create_def kalloc_def split: if_splits list.splits)

lemma walkpgdir_create_new:
  "walkpgdir_create s pd va = (ok, s') \<Longrightarrow> ptes s' pd' pg = Some w \<Longrightarrow>
   ptes s pd' pg = Some w \<or> w = 0"
  by (auto simp add: walkpgdir_create_def kalloc_def split: if_splits list.splits)

lemma cow_mark_bits:
  assumes "PTE_COW H AND PTE_W H = 0" "PTE_COW H \<noteq> 0"
  shows "cow_mark H v AND PTE_COW H \<noteq> 0" and "cow_mark H v AND PTE_W H = 0"
    and "cow_mark H (cow_mark H v) = cow_mark H v"
proof -
  have c: "\<And>n. bit (PTE_COW H) n \<Longrightarrow> \<not> bit (PTE_W H) n"
  proof
    fix n assume "bit (PTE_COW H) n" "bit (PTE_W H) n"
    then have "bit (PTE_COW H AND PTE_W H) n" by (simp add: bit_and_iff)
    then show False using assms(1) by simp
  qed
  have "cow_mark H v AND PTE_COW H = PTE_COW H"
    unfolding cow_mark_def by (rule bit_eqI) (auto simp add: bit_simps)
  then show "cow_mark H v AND PTE_COW H \<noteq> 0" using assms(2) by simp
  show "cow_mark H v AND PTE_W H = 0"
    unfolding cow_mark_def by (rule bit_eqI) (use c in \<open>auto simp add: bit_simps\<close>)
  show "cow_mark H (cow_mark H v) = cow_mark H v"
    unfolding cow_mark_def by (rule bit_eqI) (use c in \<open>auto simp add: bit_simps\<close>)
qed

lemma disjoint_bits:
  assumes "(x::uint) AND y = 0" "bit x n" shows "\<not> bit y n"
proof
  assume "bit y n"
  then have "bit (x AND y) n" using assms(2) by (simp add: bit_and_iff)
  then show False using assms(1) by simp
qed

lemma cow_mark_present:
  assumes "PTE_W H AND PTE_P H = 0" "PTE_COW H AND PTE_P H = 0"
  shows "cow_mark H v AND PTE_P H = v AND PTE_P H"
  unfolding cow_mark_def
  by (rule bit_eqI) (use disjoint_bits[OF assms(1)] disjoint_bits[OF assms(2)] in \<open>auto simp add: bit_simps\<close>)

lemma cow_mark_frame:
  assumes "PTE_COW H AND 0xFFF = PTE_COW H" "PTE_W H AND 0xFFF = PTE_W H"
  shows "PTE_ADDR (cow_mark H v) = PTE_ADDR v"
  unfolding cow_mark_def PTE_ADDR_def m12
  by (rule bit_eqI) (use flag_bit_low[OF assms(1)] flag_bit_low[OF assms(2)] in \<open>auto simp add: bit_simps\<close>)

text \<open>One round of the page loop of fork.\<close>

lemma fork_cow_page_skip:
  "ptes s ppd (PGROUNDDOWN a) = None \<or>
   (\<exists>v. ptes s ppd (PGROUNDDOWN a) = Some v \<and> v AND PTE_P H = 0) \<Longrightarrow>
   fork_cow_page H s ppd cpd a = Inr s"
  by (auto simp add: fork_cow_page_def pte_at_def)

lemma fork_cow_page_present:
  assumes "ptes s ppd (PGROUNDDOWN a) = Some v" "v AND PTE_P H \<noteq> 0"
    and "fork_cow_page H s ppd cpd a = Inr s'"
  shows "\<exists>s4. walkpgdir_create (emit (Lcr3 (V2P H ppd)) (pte_store s ppd a (cow_mark H v))) cpd a = (True, s4)
           \<and> s' = pte_store s4 cpd a (cow_mark H v)"
proof -
  define s3 where "s3 = emit (Lcr3 (V2P H ppd)) (pte_store s ppd a (cow_mark H v))"
  obtain ok s4 where w: "walkpgdir_create s3 cpd a = (ok, s4)"
    by (cases "walkpgdir_create s3 cpd a")
  have "ptes s3 ppd (PGROUNDDOWN a) = Some (cow_mark H v)"
    by (simp add: s3_def ptes_store)
  then have d: "pte_deref s4 ppd a = cow_mark H v"
    using walkpgdir_create_keeps[OF w] by (simp add: pte_deref_def pte_at_def)
  have "fork_cow_page H s ppd cpd a =
     (if ok then Inr (pte_store s4 cpd a (pte_deref s4 ppd a))
      else Inl (Panic ''Failed to allocate PTE for child.''))"
    using assms(1,2) w
    by (simp add: fork_cow_page_def pte_at_def Let_def pte_deref_def ptes_store cow_mark_def s3_def)
  then show ?thesis using assms(3) w d unfolding s3_def by (cases ok) auto
qed

lemma fork_cow_page_forward:
  assumes "fork_cow_page H s ppd cpd a = Inr s'" "ptes s pd pg = Some w"
  shows "ptes s' pd pg = Some w \<or>
     (pg = PGROUNDDOWN a \<and> (pd = ppd \<or> pd = cpd) \<and>
      (\<exists>v. ptes s ppd (PGROUNDDOWN a) = Some v \<and> v AND PTE_P H \<noteq> 0
           \<and> ptes s' pd pg = Some (cow_mark H v)))"
proof (cases "\<exists>v. ptes s ppd (PGROUNDDOWN a) = Some v \<and> v AND PTE_P H \<noteq> 0")
  case False
  then have "fork_cow_page H s ppd cpd a = Inr s" by (intro fork_cow_page_skip) auto
  then show ?thesis using assms by simp
next
  case True
  then obtain v where v: "ptes s ppd (PGROUNDDOWN a) = Some v" "v AND PTE_P H \<noteq> 0" by blast
  obtain s4 where s4:
    "walkpgdir_create (emit (Lcr3 (V2P H ppd)) (pte_store s ppd a (cow_mark H v))) cpd a = (True, s4)"
    "s' = pte_store s4 cpd a (cow_mark H v)"
    using fork_cow_page_present[OF v assms(1)] by blast
  show ?thesis
  proof (cases "pg = PGROUNDDOWN a \<and> (pd = ppd \<or> pd = cpd)")
    case True
    have "ptes (emit (Lcr3 (V2P H ppd)) (pte_store s ppd a (cow_mark H v))) ppd (PGROUNDDOWN a)
            = Some (cow_mark H v)"
      by (simp add: ptes_store)
    then have "ptes s4 ppd (PGROUNDDOWN a) = Some (cow_mark H v)"
      by (rule walkpgdir_create_keeps[OF s4(1)])
    then have "ptes s' pd pg = Some (cow_mark H v)"
      using True s4(2) by (auto simp add: ptes_store)
    then show ?thesis using True v by blast
  next
    case False
    have "ptes (emit (Lcr3 (V2P H ppd)) (pte_store s ppd a (cow_mark H v))) pd pg = Some w"
      using False assms(2) by (auto simp add: ptes_store)
    then have "ptes s4 pd pg = Some w"
      by (rule walkpgdir_create_keeps[OF s4(1)])
    then have "ptes s' pd pg = Some w"
      using False s4(2) by (auto simp add: ptes_store)
    then show ?thesis by simp
  qed
qed

lemma fork_cow_page_backward:
  assumes "fork_cow_page H s ppd cpd a = Inr s'" "ptes s' pd pg = Some w"
  shows "ptes s pd pg = Some w \<or> w = 0 \<or> (\<exists>v. w = cow_mark H v)"
proof (cases "\<exists>v. ptes s ppd (PGROUNDDOWN a) = Some v \<and> v AND PTE_P H \<noteq> 0")
  case False
  then have "fork_cow_page H s ppd cpd a = Inr s" by (intro fork_cow_page_skip) auto
  then show ?thesis using assms by simp
next
  case True
  then obtain v where v: "ptes s ppd (PGROUNDDOWN a) = Some v" "v AND PTE_P H \<noteq> 0" by blast
  obtain s4 where s4:
    "walkpgdir_create (emit (Lcr3 (V2P H ppd)) (pte_store s ppd a (cow_mark H v))) cpd a = (True, s4)"
    "s' = pte_store s4 cpd a (cow_mark H v)"
    using fork_cow_page_present[OF v assms(1)] by blast
  show ?thesis
  proof (cases "w = cow_mark H v")
    case True
    then show ?thesis by blast
  next
    case False
    then have "ptes s4 pd pg = Some w" using assms(2) s4(2) by (auto simp add: ptes_store split: if_splits)
    then have "ptes (emit (Lcr3 (V2P H ppd)) (pte_store s ppd a (cow_mark H v))) pd pg = Some w \<or> w = 0"
      by (rule walkpgdir_create_new[OF s4(1)])
    then show ?thesis using False by (auto simp add: ptes_store split: if_splits)
  qed
qed

lemma fork_cow_page_marks:
  assumes "fork_cow_page H s ppd cpd a = Inr s'"
    and "ptes s ppd (PGROUNDDOWN a) = Some v" "v AND PTE_P H \<noteq> 0"
  shows "ptes s' ppd (PGROUNDDOWN a) = Some (cow_mark H v)"
    and "ptes s' cpd (PGROUNDDOWN a) = Some (cow_mark H v)"
proof -
  obtain s4 where s4:
    "walkpgdir_create (emit (Lcr3 (V2P H ppd)) (pte_store s ppd a (cow_mark H v))) cpd a = (True, s4)"
    "s' = pte_store s4 cpd a (cow_mark H v)"
    using fork_cow_page_present[OF assms(2,3,1)] by blast
  have "ptes (emit (Lcr3 (V2P H ppd)) (pte_store s ppd a (cow_mark H v))) ppd (PGROUNDDOWN a)
            = Some (cow_mark H v)"
    by (simp add: ptes_store)
  then have "ptes s4 ppd (PGROUNDDOWN a) = Some (cow_mark H v)"
    by (rule walkpgdir_create_keeps[OF s4(1)])
  then show "ptes s' ppd (PGROUNDDOWN a) = Some (cow_mark H v)"
    and "ptes s' cpd (PGROUNDDOWN a) = Some (cow_mark H v)"
    using s4(2) by (simp_all add: ptes_store)
qed

text \<open>Any number of rounds of the page loop.\<close>

lemma step_shared:
  assumes "bits_ok H" "cow_step H ppd cpd s s'" "cow_shared H s ppd cpd pg w"
  shows "cow_shared H s' ppd cpd pg w"
proof -
  obtain a where a: "fork_cow_page H s ppd cpd a = Inr s'" using assms(2) by (auto simp: cow_step_def)
  have i: "cow_mark H (cow_mark H w) = cow_mark H w"
    using assms(1) by (intro cow_mark_bits(3)) (simp_all add: bits_ok_def)
  have p: "ptes s ppd pg = Some (cow_mark H w)" and c: "ptes s cpd pg = Some (cow_mark H w)"
    using assms(3) by (simp_all add: cow_shared_def)
  have "ptes s' ppd pg = Some (cow_mark H w)"
    using fork_cow_page_forward[OF a p] p i by auto
  moreover have "ptes s' cpd pg = Some (cow_mark H w)"
    using fork_cow_page_forward[OF a c] p i by auto
  ultimately show ?thesis by (simp add: cow_shared_def)
qed

lemma steps_shared:
  assumes "bits_ok H" "(cow_step H ppd cpd)\<^sup>*\<^sup>* s s'" "cow_shared H s ppd cpd pg w"
  shows "cow_shared H s' ppd cpd pg w"
  using assms(2,3) by (induction rule: rtranclp_induct) (auto intro: step_shared[OF assms(1)])

lemma step_evolve:
  assumes "bits_ok H" "cow_step H ppd cpd s s'"
    and "ptes s ppd pg = Some w1" "w1 = w \<or> (w AND PTE_P H \<noteq> 0 \<and> w1 = cow_mark H w)"
  shows "\<exists>w2. ptes s' ppd pg = Some w2 \<and> (w2 = w \<or> (w AND PTE_P H \<noteq> 0 \<and> w2 = cow_mark H w))"
proof -
  obtain a where a: "fork_cow_page H s ppd cpd a = Inr s'" using assms(2) by (auto simp: cow_step_def)
  have i: "cow_mark H (cow_mark H w) = cow_mark H w"
    using assms(1) by (intro cow_mark_bits(3)) (simp_all add: bits_ok_def)
  have pr: "cow_mark H w AND PTE_P H = w AND PTE_P H"
    using assms(1) by (intro cow_mark_present) (simp_all add: bits_ok_def)
  consider "ptes s' ppd pg = Some w1"
    | v where "ptes s ppd pg = Some v" "v AND PTE_P H \<noteq> 0" "ptes s' ppd pg = Some (cow_mark H v)"
    using fork_cow_page_forward[OF a assms(3)] by auto
  then show ?thesis
  proof cases
    case 1
    then show ?thesis using assms(4) by auto
  next
    case 2
    then have "v = w1" using assms(3) by simp
    then show ?thesis using 2 assms(4) i pr by auto
  qed
qed

lemma steps_evolve:
  assumes "bits_ok H" "(cow_step H ppd cpd)\<^sup>*\<^sup>* s s'" "ptes s ppd pg = Some w"
  shows "\<exists>w2. ptes s' ppd pg = Some w2 \<and> (w2 = w \<or> (w AND PTE_P H \<noteq> 0 \<and> w2 = cow_mark H w))"
  using assms(2,3)
proof (induction rule: rtranclp_induct)
  case base
  then show ?case by simp
next
  case (step y z)
  then obtain w1 where "ptes y ppd pg = Some w1" "w1 = w \<or> (w AND PTE_P H \<noteq> 0 \<and> w1 = cow_mark H w)"
    by blast
  then show ?case using step_evolve[OF assms(1) step.hyps(2)] by blast
qed

lemma step_inv:
  assumes "bits_ok H" "cow_step H ppd cpd s s'" "cow_inv H s pd"
  shows "cow_inv H s' pd"
  unfolding cow_inv_def
proof (intro allI impI)
  fix pg w assume w: "ptes s' pd pg = Some w" "w AND PTE_COW H \<noteq> 0"
  obtain a where a: "fork_cow_page H s ppd cpd a = Inr s'" using assms(2) by (auto simp: cow_step_def)
  have m: "\<And>v. cow_mark H v AND PTE_W H = 0"
    using assms(1) by (intro cow_mark_bits(2)) (simp_all add: bits_ok_def)
  from fork_cow_page_backward[OF a w(1)]
  show "w AND PTE_W H = 0" using w(2) assms(3) m by (auto simp: cow_inv_def)
qed

lemma steps_inv:
  assumes "bits_ok H" "(cow_step H ppd cpd)\<^sup>*\<^sup>* s s'" "cow_inv H s pd"
  shows "cow_inv H s' pd"
  using assms(2,3) by (induction rule: rtranclp_induct) (auto intro: step_inv[OF assms(1)])

lemma fork_cow_pages_spec:
  assumes "fork_cow_pages H ppd cpd e s a = Some y"
  shows "pages_post H ppd cpd e s a y"
proof (rule fork_cow_pages.raw_induct[where P = pages_post, OF _ assms])
  fix f H ppd cpd e s a y
  assume IH: "\<And>H ppd cpd e s a y. f H ppd cpd e s a = Some y \<Longrightarrow> pages_post H ppd cpd e s a y"
    and prems: "(if a < e
      then case fork_cow_page H s ppd cpd a of
           Inl err \<Rightarrow> Some (Inl err)
           | Inr s1 \<Rightarrow> f H ppd cpd e s1 (a + PGSIZE)
      else Some (Inr s)) = Some y"
  show "pages_post H ppd cpd e s a y"
    unfolding pages_post_def
  proof (intro impI allI)
    fix s' assume ok: "bits_ok H" and y: "y = Inr s'"
    show "(cow_step H ppd cpd)\<^sup>*\<^sup>* s s' \<and>
     (\<forall>k t w. unat t = unat a + 4096 * k \<and> unat t < unat e
         \<and> ptes s ppd (PGROUNDDOWN t) = Some w \<and> w AND PTE_P H \<noteq> 0
       \<longrightarrow> cow_shared H s' ppd cpd (PGROUNDDOWN t) w)"
    proof (cases "a < e")
      case False
      then have "s' = s" using prems y by simp
      moreover have "\<not> unat a < unat e" using False by (simp add: word_less_nat_alt)
      ultimately show ?thesis by auto
    next
      case True
      then obtain s1 where s1: "fork_cow_page H s ppd cpd a = Inr s1"
        "f H ppd cpd e s1 (a + PGSIZE) = Some (Inr s')"
        using prems y by (auto split: sum.splits)
      have st: "cow_step H ppd cpd s s1" using s1(1) by (auto simp: cow_step_def)
      have ih: "(cow_step H ppd cpd)\<^sup>*\<^sup>* s1 s'"
        "\<And>k t w. unat t = unat (a + PGSIZE) + 4096 * k \<Longrightarrow> unat t < unat e
           \<Longrightarrow> ptes s1 ppd (PGROUNDDOWN t) = Some w \<Longrightarrow> w AND PTE_P H \<noteq> 0
           \<Longrightarrow> cow_shared H s' ppd cpd (PGROUNDDOWN t) w"
        using IH[OF s1(2)] ok unfolding pages_post_def by blast+
      have r: "(cow_step H ppd cpd)\<^sup>*\<^sup>* s s'"
        using st ih(1) by (rule converse_rtranclp_into_rtranclp)
      have "cow_shared H s' ppd cpd (PGROUNDDOWN t) w"
        if t: "unat t = unat a + 4096 * k" "unat t < unat e"
          and w: "ptes s ppd (PGROUNDDOWN t) = Some w" "w AND PTE_P H \<noteq> 0" for k t w
      proof (cases k)
        case 0
        then have "t = a" using t(1) by (simp add: word_unat_eq_iff)
        then have "cow_shared H s1 ppd cpd (PGROUNDDOWN t) w"
          using fork_cow_page_marks[OF s1(1)] w by (simp add: cow_shared_def)
        then show ?thesis using steps_shared[OF ok ih(1)] by blast
      next
        case (Suc j)
        have "unat a + 4096 < 4294967296"
          using t Suc unsigned_less[of t, where ?'a = nat] by simp
        then have n: "unat (a + PGSIZE) = unat a + 4096"
          by (simp add: PGSIZE_def unat_word_ariths)
        obtain w1 where w1: "ptes s1 ppd (PGROUNDDOWN t) = Some w1"
          "w1 = w \<or> (w AND PTE_P H \<noteq> 0 \<and> w1 = cow_mark H w)"
          using step_evolve[OF ok st w(1)] by blast
        have pr: "cow_mark H w AND PTE_P H = w AND PTE_P H"
          using ok by (intro cow_mark_present) (simp_all add: bits_ok_def)
        have i: "cow_mark H (cow_mark H w) = cow_mark H w"
          using ok by (intro cow_mark_bits(3)) (simp_all add: bits_ok_def)
        have "cow_shared H s' ppd cpd (PGROUNDDOWN t) w1"
          using t Suc n w1 w(2) pr by (intro ih(2)[of t j w1]) auto
        then show ?thesis using w1(2) i by (auto simp: cow_shared_def)
      qed
      then show ?thesis using r by blast
    qed
  qed
qed

text \<open>The loop over the descriptors.\<close>

lemma fork_mappings_head:
  assumes "fork_mappings H cur s np (h # is) = Some (Inr (s', np'))"
  shows "\<exists>s1. h < length (memoryMappings cur) \<and> h < length (memoryMappings np) \<and>
     (if flags (memoryMappings cur ! h) AND MAP_PRIVATE H \<noteq> 0
      then fork_cow_pages H (pgdir cur) (pgdir np)
             (addr (memoryMappings cur ! h) + length_m (memoryMappings cur ! h))
             s (addr (memoryMappings cur ! h)) = Some (Inr s1)
      else s1 = s) \<and>
     fork_mappings H cur s1 (np\<lparr>memoryMappings := (memoryMappings np)[h := memoryMappings cur ! h]\<rparr>) is
       = Some (Inr (s', np'))"
  using assms by (auto split: if_splits option.splits sum.splits)

lemma fork_mappings_head_steps:
  assumes "bits_ok H"
    and "if flags (memoryMappings cur ! h) AND MAP_PRIVATE H \<noteq> 0
      then fork_cow_pages H ppd cpd e s a = Some (Inr s1)
      else s1 = s"
  shows "(cow_step H ppd cpd)\<^sup>*\<^sup>* s s1"
proof (cases "flags (memoryMappings cur ! h) AND MAP_PRIVATE H \<noteq> 0")
  case True
  then have "fork_cow_pages H ppd cpd e s a = Some (Inr s1)" using assms(2) by simp
  then show ?thesis using fork_cow_pages_spec assms(1) by (simp add: pages_post_def)
next
  case False
  then show ?thesis using assms(2) by simp
qed

lemma fork_mappings_spec:
  "fork_mappings H cur s np is = Some (Inr (s', np')) \<Longrightarrow> bits_ok H \<Longrightarrow>
   (cow_step H (pgdir cur) (pgdir np))\<^sup>*\<^sup>* s s' \<and> pgdir np' = pgdir np \<and>
   num_mappings np' = num_mappings np \<and> pid np' = pid np \<and>
   length (memoryMappings np') = length (memoryMappings np)"
proof (induction "is" arbitrary: s np)
  case Nil
  then show ?case by simp
next
  case (Cons h "is")
  obtain s1 where s1: "if flags (memoryMappings cur ! h) AND MAP_PRIVATE H \<noteq> 0
      then fork_cow_pages H (pgdir cur) (pgdir np)
             (addr (memoryMappings cur ! h) + length_m (memoryMappings cur ! h))
             s (addr (memoryMappings cur ! h)) = Some (Inr s1)
      else s1 = s"
    "fork_mappings H cur s1 (np\<lparr>memoryMappings := (memoryMappings np)[h := memoryMappings cur ! h]\<rparr>) is
       = Some (Inr (s', np'))"
    using fork_mappings_head[OF Cons.prems(1)] by blast
  have a: "(cow_step H (pgdir cur) (pgdir np))\<^sup>*\<^sup>* s s1"
    using Cons.prems(2) s1(1) by (rule fork_mappings_head_steps)
  have b: "(cow_step H (pgdir cur) (pgdir np))\<^sup>*\<^sup>* s1 s' \<and> pgdir np' = pgdir np \<and>
     num_mappings np' = num_mappings np \<and> pid np' = pid np \<and>
     length (memoryMappings np') = length (memoryMappings np)"
    using Cons.IH[OF s1(2) Cons.prems(2)] by simp
  show ?case using a b by auto
qed

lemma fork_mappings_untouched:
  "fork_mappings H cur s np is = Some (Inr (s', np')) \<Longrightarrow> j \<notin> set is \<Longrightarrow>
   memoryMappings np' ! j = memoryMappings np ! j"
proof (induction "is" arbitrary: s np)
  case Nil
  then show ?case by simp
next
  case (Cons h "is")
  obtain s1 where s1:
    "fork_mappings H cur s1 (np\<lparr>memoryMappings := (memoryMappings np)[h := memoryMappings cur ! h]\<rparr>) is
       = Some (Inr (s', np'))"
    using fork_mappings_head[OF Cons.prems(1)] by blast
  have "memoryMappings np' ! j = (memoryMappings np)[h := memoryMappings cur ! h] ! j"
    using Cons.IH[OF s1] Cons.prems(2) by simp
  then show ?case using Cons.prems(2) by simp
qed

lemma fork_mappings_copies:
  "fork_mappings H cur s np is = Some (Inr (s', np')) \<Longrightarrow> distinct is \<Longrightarrow> j \<in> set is \<Longrightarrow>
   memoryMappings np' ! j = memoryMappings cur ! j"
proof (induction "is" arbitrary: s np)
  case Nil
  then show ?case by simp
next
  case (Cons h "is")
  obtain s1 where s1: "h < length (memoryMappings np)"
    "fork_mappings H cur s1 (np\<lparr>memoryMappings := (memoryMappings np)[h := memoryMappings cur ! h]\<rparr>) is
       = Some (Inr (s', np'))"
    using fork_mappings_head[OF Cons.prems(1)] by blast
  show ?case
  proof (cases "j = h")
    case True
    then have "j \<notin> set is" using Cons.prems(2) by simp
    then have "memoryMappings np' ! j = (memoryMappings np)[h := memoryMappings cur ! h] ! j"
      using fork_mappings_untouched[OF s1(2)] by simp
    then show ?thesis using True s1(1) by simp
  next
    case False
    then show ?thesis using Cons.IH[OF s1(2)] Cons.prems(2,3) by simp
  qed
qed

lemma fork_mappings_marks:
  "fork_mappings H cur s np is = Some (Inr (s', np')) \<Longrightarrow> bits_ok H \<Longrightarrow> i \<in> set is \<Longrightarrow>
   flags (memoryMappings cur ! i) AND MAP_PRIVATE H \<noteq> 0 \<Longrightarrow>
   unat t = unat (addr (memoryMappings cur ! i)) + 4096 * k \<Longrightarrow>
   unat t < unat (addr (memoryMappings cur ! i) + length_m (memoryMappings cur ! i)) \<Longrightarrow>
   ptes s (pgdir cur) (PGROUNDDOWN t) = Some w \<Longrightarrow> w AND PTE_P H \<noteq> 0 \<Longrightarrow>
   cow_shared H s' (pgdir cur) (pgdir np) (PGROUNDDOWN t) w"
proof (induction "is" arbitrary: s np w)
  case Nil
  then show ?case by simp
next
  case (Cons h "is")
  let ?np1 = "np\<lparr>memoryMappings := (memoryMappings np)[h := memoryMappings cur ! h]\<rparr>"
  obtain s1 where s1: "if flags (memoryMappings cur ! h) AND MAP_PRIVATE H \<noteq> 0
      then fork_cow_pages H (pgdir cur) (pgdir np)
             (addr (memoryMappings cur ! h) + length_m (memoryMappings cur ! h))
             s (addr (memoryMappings cur ! h)) = Some (Inr s1)
      else s1 = s"
    "fork_mappings H cur s1 ?np1 is = Some (Inr (s', np'))"
    using fork_mappings_head[OF Cons.prems(1)] by blast
  have rest: "(cow_step H (pgdir cur) (pgdir np))\<^sup>*\<^sup>* s1 s'"
    using fork_mappings_spec[OF s1(2) Cons.prems(2)] by simp
  show ?case
  proof (cases "h = i")
    case True
    then have "fork_cow_pages H (pgdir cur) (pgdir np)
             (addr (memoryMappings cur ! i) + length_m (memoryMappings cur ! i))
             s (addr (memoryMappings cur ! i)) = Some (Inr s1)"
      using s1(1) Cons.prems(4) by simp
    then have "cow_shared H s1 (pgdir cur) (pgdir np) (PGROUNDDOWN t) w"
      using fork_cow_pages_spec Cons.prems(2,5,6,7,8) unfolding pages_post_def by blast
    then show ?thesis using Cons.prems(2) rest by (rule steps_shared[rotated 2])
  next
    case False
    then have mem: "i \<in> set is" using Cons.prems(3) by simp
    have "(cow_step H (pgdir cur) (pgdir np))\<^sup>*\<^sup>* s s1"
      using Cons.prems(2) s1(1) by (rule fork_mappings_head_steps)
    then obtain w1 where w1: "ptes s1 (pgdir cur) (PGROUNDDOWN t) = Some w1"
      "w1 = w \<or> (w AND PTE_P H \<noteq> 0 \<and> w1 = cow_mark H w)"
      using steps_evolve[OF Cons.prems(2) _ Cons.prems(7)] by blast
    have pr: "cow_mark H w AND PTE_P H = w AND PTE_P H"
      using Cons.prems(2) by (intro cow_mark_present) (simp_all add: bits_ok_def)
    have i: "cow_mark H (cow_mark H w) = cow_mark H w"
      using Cons.prems(2) by (intro cow_mark_bits(3)) (simp_all add: bits_ok_def)
    have "w1 AND PTE_P H \<noteq> 0" using w1(2) pr Cons.prems(8) by auto
    then have "cow_shared H s' (pgdir cur) (pgdir ?np1) (PGROUNDDOWN t) w1"
      using Cons.IH[OF s1(2) Cons.prems(2) mem Cons.prems(4,5,6) w1(1)] by simp
    then show ?thesis using w1(2) i by (auto simp: cow_shared_def)
  qed
qed

lemma page_of_va:
  assumes "page_aligned a" "a \<le> va"
  shows "\<exists>k. unat (PGROUNDDOWN va) = unat a + 4096 * k"
proof -
  obtain j where j: "unat a = 4096 * j"
    using assms(1) by (auto simp: page_aligned_unat mod_eq_0_iff_dvd)
  have "unat a \<le> unat va" using assms(2) by (simp add: word_le_nat_alt)
  then have "j \<le> unat va div 4096" using j by simp
  then have "unat va div 4096 * 4096 = 4096 * j + 4096 * (unat va div 4096 - j)"
    by (simp add: algebra_simps flip: distrib_left)
  then show ?thesis using j by (auto simp: unat_PGROUNDDOWN)
qed

lemma PGROUNDDOWN_le: "unat (PGROUNDDOWN va) \<le> unat va"
  by (simp add: unat_PGROUNDDOWN)

lemma PGROUNDDOWN_idem: "PGROUNDDOWN (PGROUNDDOWN va) = PGROUNDDOWN va"
  by (simp add: PGROUNDDOWN_def)

text \<open>
  Claim C8.  After a successful fork, for every parent descriptor with \<open>MAP_PRIVATE\<close>
  (its address page-aligned, as in the data model) and every address in its range
  whose parent entry was present when the loop began: the parent's entry is the old
  one with \<open>PTE_W\<close> cleared and \<open>PTE_COW\<close> set, so \<open>PTE_COW\<close> is set, \<open>PTE_W\<close> is clear and
  the frame is the same; the child's entry at the same address has identical bits;
  every live descriptor is in the child at the same index and the child's
  \<open>num_mappings\<close> equals the parent's; and if ``\<open>PTE_COW\<close> implies not \<open>PTE_W\<close>'' held in
  the parent's address space and in the one \<open>copyuvm\<close> made, it holds in both after the
  fork.
\<close>

theorem fork_shares_private_pages:
  assumes bits: "hdr_ok H" "PTE_W H AND PTE_P H = 0"
    and frk: "fork H copyuvm (Some np0) s curproc = Some (Inr (r, s', Some np))"
    and cp: "copyuvm s (pgdir curproc) (sz curproc) = (pd, s1)"
    and i: "i < nat (num_mappings curproc)"
    and priv: "flags (memoryMappings curproc ! i) AND MAP_PRIVATE H \<noteq> 0"
    and al: "page_aligned (addr (memoryMappings curproc ! i))"
    and va: "addr (memoryMappings curproc ! i) \<le> va"
       "va < addr (memoryMappings curproc ! i) + length_m (memoryMappings curproc ! i)"
    and pte: "pte_at s1 (pgdir curproc) va = Some v" "v AND PTE_P H \<noteq> 0"
  shows "pte_at s' (pgdir curproc) va = Some (cow_mark H v) \<and>
     pte_at s' (pgdir np) va = Some (cow_mark H v) \<and>
     cow_mark H v AND PTE_COW H \<noteq> 0 \<and> cow_mark H v AND PTE_W H = 0 \<and>
     PTE_ADDR (cow_mark H v) = PTE_ADDR v \<and>
     num_mappings np = num_mappings curproc \<and>
     (\<forall>j < nat (num_mappings curproc). memoryMappings np ! j = memoryMappings curproc ! j) \<and>
     (cow_inv H s1 (pgdir curproc) \<and> cow_inv H s1 pd
        \<longrightarrow> cow_inv H s' (pgdir curproc) \<and> cow_inv H s' (pgdir np))"
proof -
  let ?np1 = "np0\<lparr>num_mappings := num_mappings curproc, pgdir := pd\<rparr>"
  have ok: "bits_ok H" using bits by (simp add: bits_ok_def hdr_ok_def)
  obtain np2 where fm: "fork_mappings H curproc s1 ?np1 [0..<nat (num_mappings curproc)]
      = Some (Inr (s', np2))"
    and np: "np = np2\<lparr>sz := sz curproc, ofile := ofile curproc\<rparr>"
    using frk cp by (auto simp add: fork_def split: if_splits option.splits sum.splits)
  have sp: "(cow_step H (pgdir curproc) pd)\<^sup>*\<^sup>* s1 s'" "pgdir np2 = pd"
    "num_mappings np2 = num_mappings curproc"
    using fork_mappings_spec[OF fm ok] by simp_all
  obtain k where k: "unat (PGROUNDDOWN va) = unat (addr (memoryMappings curproc ! i)) + 4096 * k"
    using page_of_va[OF al va(1)] by blast
  have lt: "unat (PGROUNDDOWN va)
      < unat (addr (memoryMappings curproc ! i) + length_m (memoryMappings curproc ! i))"
    using va(2) PGROUNDDOWN_le[of va] by (simp add: word_less_nat_alt)
  have "cow_shared H s' (pgdir curproc) (pgdir ?np1) (PGROUNDDOWN (PGROUNDDOWN va)) v"
    using fm ok _ priv k lt
  proof (rule fork_mappings_marks)
    show "i \<in> set [0..<nat (num_mappings curproc)]" using i by simp
    show "ptes s1 (pgdir curproc) (PGROUNDDOWN (PGROUNDDOWN va)) = Some v"
      using pte(1) by (simp add: pte_at_def PGROUNDDOWN_idem)
    show "v AND PTE_P H \<noteq> 0" by (rule pte(2))
  qed
  then have sh: "pte_at s' (pgdir curproc) va = Some (cow_mark H v)"
    "pte_at s' (pgdir np) va = Some (cow_mark H v)"
    using sp(2) np by (simp_all add: cow_shared_def pte_at_def PGROUNDDOWN_idem)
  have b: "cow_mark H v AND PTE_COW H \<noteq> 0" "cow_mark H v AND PTE_W H = 0"
    using ok by (simp_all add: cow_mark_bits bits_ok_def)
  have f: "PTE_ADDR (cow_mark H v) = PTE_ADDR v"
    using bits(1) by (intro cow_mark_frame) (simp_all add: hdr_ok_def)
  have n: "num_mappings np = num_mappings curproc" using sp(3) np by simp
  have c: "memoryMappings np ! j = memoryMappings curproc ! j" if "j < nat (num_mappings curproc)" for j
    using fork_mappings_copies[OF fm, of j] that np by simp
  have v: "cow_inv H s' (pgdir curproc) \<and> cow_inv H s' (pgdir np)"
    if "cow_inv H s1 (pgdir curproc) \<and> cow_inv H s1 pd"
    using steps_inv[OF ok sp(1)] that sp(2) np by simp
  show ?thesis using sh b f n c v by blast
qed

text \<open>The theorem at the fork of the parent with one present, writable private page.\<close>

lemma fork_example:
  "\<exists>s' np. fork xv6_hdr copyuvm_empty (Some child0) parent_state proc_one = Some (Inr (4, s', Some np))"
  by (simp add: fork_def copyuvm_empty_def child0_def proc_one_def proc0_def anon_page_def
      xv6_hdr_def upt_conv_Cons fork_cow_pages.simps fork_cow_page_def pte_at_def pte_deref_def
      pte_store_def walkpgdir_create_def kalloc_def emit_def parent_state_def kstate0_def
      PGROUNDDOWN_def PGSIZE_def V2P_def Let_def)

lemma proc_one_private:
  "(0 :: nat) < nat (num_mappings proc_one)"
  "flags (memoryMappings proc_one ! 0) AND MAP_PRIVATE xv6_hdr \<noteq> 0"
  "page_aligned (addr (memoryMappings proc_one ! 0))"
  "addr (memoryMappings proc_one ! 0) \<le> 0x60000010"
  "(0x60000010 :: uint) < addr (memoryMappings proc_one ! 0) + length_m (memoryMappings proc_one ! 0)"
  by (simp_all add: proc_one_def proc0_def anon_page_def xv6_hdr_def page_aligned_def PGSIZE_def)

lemma parent_state_pte:
  "pte_at parent_state (pgdir proc_one) 0x60000010 = Some 0x0dfff007"
  "(0x0dfff007 :: uint) AND PTE_P xv6_hdr \<noteq> 0"
  by (simp_all add: pte_at_def parent_state_def kstate0_def proc_one_def proc0_def PGROUNDDOWN_def
      PGSIZE_def xv6_hdr_def)

theorem fork_shares_private_pages_witness:
  "hdr_ok xv6_hdr \<and> PTE_W xv6_hdr AND PTE_P xv6_hdr = 0 \<and>
   flags (memoryMappings proc_one ! 0) AND MAP_PRIVATE xv6_hdr \<noteq> 0 \<and>
   pte_at parent_state (pgdir proc_one) 0x60000010 = Some 0x0dfff007 \<and>
   (\<exists>s' np. fork xv6_hdr copyuvm_empty (Some child0) parent_state proc_one
        = Some (Inr (4, s', Some np)) \<and>
      pte_at s' (pgdir proc_one) 0x60000010 = Some 0x0dfff205 \<and>
      pte_at s' (pgdir np) 0x60000010 = Some 0x0dfff205 \<and>
      num_mappings np = 1 \<and> memoryMappings np ! 0 = anon_page 0x60000000 4096)"
proof -
  obtain s' np where f: "fork xv6_hdr copyuvm_empty (Some child0) parent_state proc_one
        = Some (Inr (4, s', Some np))"
    using fork_example by blast
  have wp: "PTE_W xv6_hdr AND PTE_P xv6_hdr = 0" by (simp add: xv6_hdr_def)
  have cp: "copyuvm_empty parent_state (pgdir proc_one) (sz proc_one) = (0x8dfbd000, parent_state)"
    by (simp add: copyuvm_empty_def)
  have m: "cow_mark xv6_hdr 0x0dfff007 = 0x0dfff205"
    by (simp add: cow_mark_def xv6_hdr_def)
  have t: "pte_at s' (pgdir proc_one) 0x60000010 = Some (cow_mark xv6_hdr 0x0dfff007)"
    "pte_at s' (pgdir np) 0x60000010 = Some (cow_mark xv6_hdr 0x0dfff007)"
    "num_mappings np = num_mappings proc_one"
    "\<forall>j < nat (num_mappings proc_one). memoryMappings np ! j = memoryMappings proc_one ! j"
    using fork_shares_private_pages [OF xv6_hdr_ok wp f cp proc_one_private parent_state_pte]
    by blast+
  have n: "num_mappings np = 1" using t(3) by (simp add: proc_one_def)
  have "memoryMappings np ! 0 = memoryMappings proc_one ! 0"
    using t(4) proc_one_private(1) by blast
  then have c: "memoryMappings np ! 0 = anon_page 0x60000000 4096"
    by (simp add: proc_one_def proc0_def)
  show ?thesis
    using xv6_hdr_ok wp proc_one_private(2) parent_state_pte(1) f t(1,2) n c unfolding m by blast
qed

subsection \<open>The capacity of the mapping table\<close>

lemma unat_page_no: "j \<le> 33 \<Longrightarrow> unat (page_no j) = 1610612736 + 4096 * j"
proof -
  assume j: "j \<le> 33"
  have a: "unat (of_nat j :: uint) = j" using j by (simp add: unat_of_nat)
  have b: "unat (4096 * of_nat j :: uint) = 4096 * j"
    using j by (simp add: unat_word_ariths a)
  show ?thesis using j by (simp add: page_no_def MMAP_AREA_START_def PGSIZE_def unat_word_ariths a)
qed

lemma page_no_Suc: "page_no j + PGSIZE = page_no (Suc j)"
  by (simp add: page_no_def algebra_simps)

lemma unat_page_end: "j \<le> 32 \<Longrightarrow> unat (page_no j + 4096) = 1610612736 + 4096 * j + 4096"
  using unat_page_no[of "Suc j"] page_no_Suc[of j] by (simp add: PGSIZE_def)

lemma PGROUNDUP_page: "PGROUNDUP 4096 = 4096"
  by (simp add: PGROUNDUP_def PGSIZE_def)

lemma table_length: "length (memoryMappings (pages_table k)) = 32"
  by (simp add: pages_table_def)

lemma table_nth:
  "i < 32 \<Longrightarrow> memoryMappings (pages_table k) ! i =
     (if i < k then anon_page (page_no i) 4096 else anon_page 0 0)"
  by (simp add: pages_table_def)

lemma table_scan:
  assumes "k \<le> 32" "j \<le> k"
  shows "overlap_scan (memoryMappings (pages_table k)) [0..<k] (page_no j) 4096 = Inr (j < k)"
proof -
  have r: "\<forall>i \<in> set [0..<k]. i < length (memoryMappings (pages_table k))"
    using assms by (simp add: table_length)
  have e: "(\<exists>i \<in> set [0..<k]. addr (memoryMappings (pages_table k) ! i) < page_no j + 4096 \<and>
        page_no j < addr (memoryMappings (pages_table k) ! i)
           + PGROUNDUP (length_m (memoryMappings (pages_table k) ! i))) = (j < k)"
  proof
    assume "\<exists>i \<in> set [0..<k]. addr (memoryMappings (pages_table k) ! i) < page_no j + 4096 \<and>
        page_no j < addr (memoryMappings (pages_table k) ! i)
           + PGROUNDUP (length_m (memoryMappings (pages_table k) ! i))"
    then obtain i where i: "i < k"
      and a: "addr (memoryMappings (pages_table k) ! i) < page_no j + 4096"
      and b: "page_no j < addr (memoryMappings (pages_table k) ! i)
           + PGROUNDUP (length_m (memoryMappings (pages_table k) ! i))"
      by auto
    have i32: "i < 32" "i \<le> 32" "i \<le> 33" "j \<le> 32" "j \<le> 33" using i assms by simp_all
    have a': "page_no i < page_no j + 4096"
      using a i i32 by (simp add: table_nth anon_page_def)
    have b': "page_no j < page_no i + 4096"
      using b i i32 by (simp add: table_nth anon_page_def PGROUNDUP_page)
    have "i = j"
      using a' b' unat_page_no[OF i32(3)] unat_page_no[OF i32(5)]
        unat_page_end[OF i32(2)] unat_page_end[OF i32(4)]
      by (simp add: word_less_nat_alt)
    then show "j < k" using i by simp
  next
    assume jk: "j < k"
    have j32: "j < 32" "j \<le> 32" "j \<le> 33" using jk assms by simp_all
    have "page_no j < page_no j + 4096"
      using unat_page_no[OF j32(3)] unat_page_end[OF j32(2)] by (simp add: word_less_nat_alt)
    then have "addr (memoryMappings (pages_table k) ! j) < page_no j + 4096 \<and>
        page_no j < addr (memoryMappings (pages_table k) ! j)
           + PGROUNDUP (length_m (memoryMappings (pages_table k) ! j))"
      using jk j32 by (simp add: table_nth anon_page_def PGROUNDUP_page)
    then show "\<exists>i \<in> set [0..<k]. addr (memoryMappings (pages_table k) ! i) < page_no j + 4096 \<and>
        page_no j < addr (memoryMappings (pages_table k) ! i)
           + PGROUNDUP (length_m (memoryMappings (pages_table k) ! i))"
      using jk by auto
  qed
  show ?thesis
    unfolding overlap_scan_all[OF r] e ..
qed

lemma table_find_loop:
  "k \<le> 32 \<Longrightarrow> j \<le> k \<Longrightarrow> find_loop (pages_table k) 4096 (page_no j) = Inr (page_no k)"
proof (induction "k - j" arbitrary: j)
  case 0
  then have jk: "j = k" by simp
  have c: "page_no k + 4096 \<le> MMAP_AREA_END"
    using unat_page_end[of k] 0 by (simp add: word_le_nat_alt MMAP_AREA_END_def)
  have n: "nat (num_mappings (pages_table k)) = k" by (simp add: pages_table_def)
  show ?case
    unfolding jk
    by (subst find_loop.simps) (simp add: c n table_scan[OF "0.prems"(1)])
next
  case (Suc d)
  then have jk: "j < k" "Suc j \<le> k" "d = k - Suc j" "j \<le> 32" by simp_all
  have c: "page_no j + 4096 \<le> MMAP_AREA_END"
    using unat_page_end[of j] jk by (simp add: word_le_nat_alt MMAP_AREA_END_def)
  have n: "nat (num_mappings (pages_table k)) = k" by (simp add: pages_table_def)
  have r: "find_loop (pages_table k) 4096 (page_no (Suc j)) = Inr (page_no k)"
    using Suc.hyps(1)[OF jk(3) Suc.prems(1) jk(2)] .
  show ?case
    by (subst find_loop.simps)
       (simp add: c n table_scan[OF Suc.prems(1) Suc.prems(2)] jk page_no_Suc r)
qed

lemma table_find: "k \<le> 32 \<Longrightarrow> find_available_address (pages_table k) 4096 = Inr (page_no k)"
  using table_find_loop[of k 0] by (simp add: find_available_address_def page_no_def)

lemma page_no_nonzero: "k \<le> 32 \<Longrightarrow> page_no k \<noteq> 0"
proof
  assume "k \<le> 32" "page_no k = 0"
  then show False using unat_page_no[of k] by simp
qed

lemma one_page_place:
  "sys_mmap xv6_hdr one_page_args (anon_page 0 0) p =
     mmap_place xv6_hdr (anon_page 0 0) p 0 4096 5 (- 1)"
  by (simp add: one_page_args_def sys_mmap_args mmap_body_def xv6_hdr_def word_sle_eq)

lemma table_update:
  "k < 32 \<Longrightarrow> (memoryMappings (pages_table k))[k := anon_page (page_no k) 4096]
      = memoryMappings (pages_table (Suc k))"
  by (rule nth_equalityI) (auto simp: table_length table_nth nth_list_update)

lemma mmap_step:
  assumes "k < 32"
  shows "sys_mmap xv6_hdr one_page_args (anon_page 0 0) (pages_table k)
           = Inr (page_no k, pages_table (Suc k))"
proof -
  have k: "k \<le> 32" using assms by simp
  have e: "anon_page 0 0\<lparr>addr := page_no k, length_m := 4096, flags := 5, fd := - 1,
              originalLength := 4096\<rparr> = anon_page (page_no k) 4096"
    by (simp add: anon_page_def)
  have n: "num_mappings (pages_table k) = int k" by (simp add: pages_table_def)
  have q: "pages_table k\<lparr>memoryMappings := memoryMappings (pages_table (Suc k)),
               num_mappings := int k + 1\<rparr> = pages_table (Suc k)"
    by (simp add: pages_table_def)
  show ?thesis
    unfolding one_page_place mmap_place_def
    using assms
    by (simp add: xv6_hdr_def table_find[OF k] page_no_nonzero[OF k] e n table_length
          table_update[OF assms] q)
qed

lemma mmap_full:
  "sys_mmap xv6_hdr one_page_args (anon_page 0 0) (pages_table 32) = Inl OutOfBounds"
proof -
  have n: "num_mappings (pages_table 32) = 32" by (simp add: pages_table_def)
  show ?thesis
    unfolding one_page_place mmap_place_def
    by (simp add: xv6_hdr_def table_find[of 32] page_no_nonzero[of 32] n table_length)
qed

lemma pages_table_0: "pages_table 0 = proc0"
  by (simp add: pages_table_def proc0_def map_replicate_const)

lemma mmap_times_table:
  "k \<le> 32 \<Longrightarrow> mmap_times k proc0 = Inr (map page_no [0..<k], pages_table k)"
proof (induction k)
  case 0
  show ?case by (simp add: pages_table_0)
next
  case (Suc k)
  then have "k < 32" "k \<le> 32" by simp_all
  then show ?case using Suc.IH by (simp add: mmap_step)
qed

text \<open>
  Claim C3.  From the empty table, 32 calls of \<open>mmap\<close> for one private anonymous page
  succeed, at the consecutive pages of the arena, and leave \<open>num_mappings = 32\<close>, the
  capacity of the array.  The 33rd call is not refused: it passes every check, finds a
  free address and stores its descriptor at index 32, past the end of the array; it does
  not return \<open>-1\<close>.
\<close>

theorem mmap_table_overflow:
  "mmap_times 32 proc0 = Inr (map page_no [0..<32], pages_table 32) \<and>
   num_mappings (pages_table 32) = 32 \<and>
   length (memoryMappings (pages_table 32)) = MAX_MAPPINGS \<and>
   sys_mmap xv6_hdr one_page_args (anon_page 0 0) (pages_table 32) = Inl OutOfBounds \<and>
   mmap_times 33 proc0 = Inl OutOfBounds"
proof -
  have a: "mmap_times 32 proc0 = Inr (map page_no [0..<32], pages_table 32)"
    by (rule mmap_times_table) simp
  have b: "mmap_times 33 proc0 = Inl OutOfBounds"
  proof -
    have "mmap_times (Suc 32) proc0 = Inl OutOfBounds"
      unfolding mmap_times.simps a by (simp add: mmap_full)
    then show ?thesis by simp
  qed
  have n: "num_mappings (pages_table 32) = 32" by (simp add: pages_table_def)
  show ?thesis
    using a b n by (simp add: mmap_full table_length MAX_MAPPINGS_def)
qed

end
